theory Spec2Isabelle
  imports Complex_Main "HOL-Library.Word"
begin

section \<open>Python values\<close>

text \<open>
  The episode compiler of \<^verbatim>\<open>src/api/main.py\<close> works on untyped JSON: a frame is a
  \<^verbatim>\<open>dict\<close>, its \<^verbatim>\<open>observation\<close> and \<^verbatim>\<open>action\<close> entries may hold any JSON value, and
  what the code does with a value of the wrong type (it raises) is part of the model.

  A Python float is a 64-bit binary float: the rational it denotes, or one of the three
  special values the JSON parser accepts. The float arithmetic of the compiler is the
  conversion \<^verbatim>\<open>float(v)\<close> of an int and the division \<^verbatim>\<open>frame_idx / 30.0\<close>; both round
  to the nearest 64-bit float, ties to the even mantissa (\<open>round_quotient\<close> below).
  A string is a list of characters, one \<^typ>\<open>char\<close> per code point.
\<close>

datatype pyfloat = Fin rat | PosInf | NegInf | NaN

datatype json =
    JNull
  | JBool bool
  | JInt int
  | JFloat pyfloat
  | JStr string
  | JList "json list"
  | JDict "(string \<times> json) list"

type_synonym pydict = "(string \<times> json) list"

text \<open>
  Exceptions are values. \<open>HTTPException\<close> carries the status code and the detail; the
  detail of a re-raised exception is \<^verbatim>\<open>str(e)\<close> of the exception caught, kept here as
  that exception (\<open>Str e\<close>), or an f-string that ends in it (\<open>Prefixed s e\<close>).
  \<open>ArrowInvalid_length w n\<close> is the error of the Arrow array constructor for an item
  of \<open>n\<close> elements in a fixed-size list column of width \<open>w\<close>; \<open>Library s\<close> is any
  other exception of a library the compiler calls.
\<close>

datatype exn =
    TypeError
  | ValueError
  | OverflowError
  | KeyError
  | ArrowInvalid_length nat nat
  | Library string
  | HTTPException nat detail
and detail =
    Text string
  | Str exn
  | Prefixed string exn

definition ebind :: "exn + 'a \<Rightarrow> ('a \<Rightarrow> exn + 'b) \<Rightarrow> exn + 'b" where
  "ebind m f = (case m of Inl e \<Rightarrow> Inl e | Inr x \<Rightarrow> f x)"

text \<open>\<open>[f(x) for x in xs]\<close>: the first exception ends the comprehension.\<close>

fun emap :: "('a \<Rightarrow> exn + 'b) \<Rightarrow> 'a list \<Rightarrow> exn + 'b list" where
  "emap f [] = Inr []"
| "emap f (x # xs) =
     (case f x of
        Inl e \<Rightarrow> Inl e
      | Inr y \<Rightarrow> (case emap f xs of Inl e \<Rightarrow> Inl e | Inr ys \<Rightarrow> Inr (y # ys)))"

subsection \<open>Dictionaries\<close>

text \<open>\<^verbatim>\<open>d.get(k, default)\<close>\<close>

definition dict_get :: "pydict \<Rightarrow> string \<Rightarrow> json \<Rightarrow> json" where
  "dict_get d k dflt = (case map_of d k of Some v \<Rightarrow> v | None \<Rightarrow> dflt)"

text \<open>\<^verbatim>\<open>d[k] = v\<close>: an existing key keeps its place, a new one goes last.\<close>

fun dict_set :: "pydict \<Rightarrow> string \<Rightarrow> json \<Rightarrow> pydict" where
  "dict_set [] k v = [(k, v)]"
| "dict_set ((k', v') # d) k v =
     (if k' = k then (k, v) # d else (k', v') # dict_set d k v)"

subsection \<open>Operators on untyped values\<close>

fun is_substring :: "string \<Rightarrow> string \<Rightarrow> bool" where
  "is_substring sub [] = (sub = [])"
| "is_substring sub (c # cs) =
     (take (length sub) (c # cs) = sub \<or> is_substring sub cs)"

text \<open>
  \<^verbatim>\<open>k in x\<close> for a string \<open>k\<close>: key membership in a dict, element membership in a list
  (only a string equals a string), substring test in a string, \<^verbatim>\<open>TypeError\<close> for
  \<^verbatim>\<open>None\<close>, a bool or a number.
\<close>

fun py_contains :: "string \<Rightarrow> json \<Rightarrow> exn + bool" where
  "py_contains k (JDict d) = Inr (map_of d k \<noteq> None)"
| "py_contains k (JList xs) = Inr (JStr k \<in> set xs)"
| "py_contains k (JStr s) = Inr (is_substring k s)"
| "py_contains k JNull = Inl TypeError"
| "py_contains k (JBool b) = Inl TypeError"
| "py_contains k (JInt i) = Inl TypeError"
| "py_contains k (JFloat f) = Inl TypeError"

text \<open>
  \<^verbatim>\<open>x[k]\<close> for a string \<open>k\<close>: lookup in a dict; a list and a string take integer
  indices only, the other values are not subscriptable.
\<close>

fun py_getitem :: "json \<Rightarrow> string \<Rightarrow> exn + json" where
  "py_getitem (JDict d) k = (case map_of d k of Some v \<Rightarrow> Inr v | None \<Rightarrow> Inl KeyError)"
| "py_getitem JNull k = Inl TypeError"
| "py_getitem (JBool b) k = Inl TypeError"
| "py_getitem (JInt i) k = Inl TypeError"
| "py_getitem (JFloat f) k = Inl TypeError"
| "py_getitem (JStr s) k = Inl TypeError"
| "py_getitem (JList xs) k = Inl TypeError"

text \<open>\<^verbatim>\<open>len(x)\<close>: lists, strings and dicts have a length.\<close>

fun py_len :: "json \<Rightarrow> exn + nat" where
  "py_len (JList xs) = Inr (length xs)"
| "py_len (JStr s) = Inr (length s)"
| "py_len (JDict d) = Inr (length (remdups (map fst d)))"
| "py_len JNull = Inl TypeError"
| "py_len (JBool b) = Inl TypeError"
| "py_len (JInt i) = Inl TypeError"
| "py_len (JFloat f) = Inl TypeError"

subsection \<open>Rounding to a 64-bit float\<close>

text \<open>\<open>\<lfloor>log\<^sub>2 n\<rfloor>\<close> for a positive \<open>n\<close>.\<close>

fun ilog2 :: "nat \<Rightarrow> nat" where
  "ilog2 n = (if n < 2 then 0 else Suc (ilog2 (n div 2)))"

declare ilog2.simps [simp del]

text \<open>\<open>\<lfloor>log\<^sub>2 (a / b)\<rfloor>\<close> for positive \<open>a\<close> and \<open>b\<close>.\<close>

definition floor_log2 :: "nat \<Rightarrow> nat \<Rightarrow> int" where
  "floor_log2 a b =
     (let d = int (ilog2 a) - int (ilog2 b)
      in if (if 0 \<le> d then b * 2 ^ nat d \<le> a else b \<le> a * 2 ^ nat (- d)) then d else d - 1)"

text \<open>The integer nearest to \<open>num / den\<close>, the even one of two that are as near.\<close>

definition round_half_even :: "nat \<Rightarrow> nat \<Rightarrow> nat" where
  "round_half_even num den =
     (let q = num div den; r = num mod den
      in if 2 * r < den \<or> (2 * r = den \<and> even q) then q else q + 1)"

text \<open>
  The 64-bit float nearest to \<open>a / b\<close> (\<open>b\<close> positive): a mantissa of 53 bits at the
  exponent \<open>e\<close> of the quotient, which is not below \<open>-1022\<close> (the subnormal floats
  share that exponent), and \<^verbatim>\<open>inf\<close> when the rounded value reaches \<open>2\<^sup>1\<^sup>0\<^sup>2\<^sup>4\<close>.
\<close>

definition round_quotient :: "nat \<Rightarrow> nat \<Rightarrow> pyfloat" where
  "round_quotient a b =
     (if a = 0 then Fin 0
      else
        let e = max (floor_log2 a b) (- 1022);
            s = 52 - e;
            x = (if 0 \<le> s then of_nat (round_half_even (a * 2 ^ nat s) b) / 2 ^ nat s
                 else of_nat (round_half_even a (b * 2 ^ nat (- s))) * 2 ^ nat (- s))
        in if 2 ^ 1024 \<le> x then PosInf else Fin x)"

text \<open>
  \<^verbatim>\<open>float(i)\<close> for an int: the nearest 64-bit float, and \<^verbatim>\<open>OverflowError\<close> for an int
  that rounds beyond the largest one.
\<close>

definition float_of_int :: "int \<Rightarrow> exn + pyfloat" where
  "float_of_int i =
     (case round_quotient (nat \<bar>i\<bar>) 1 of
        Fin x \<Rightarrow> Inr (Fin (if i < 0 then - x else x))
      | other \<Rightarrow> Inl OverflowError)"

text \<open>
  \<^verbatim>\<open>float(v)\<close>. A string is parsed, and the parser is a parameter (\<open>None\<close>:
  \<^verbatim>\<open>ValueError\<close>).
\<close>

fun py_float :: "(string \<Rightarrow> pyfloat option) \<Rightarrow> json \<Rightarrow> exn + pyfloat" where
  "py_float parse (JFloat f) = Inr f"
| "py_float parse (JInt i) = float_of_int i"
| "py_float parse (JBool b) = Inr (Fin (if b then 1 else 0))"
| "py_float parse (JStr s) = (case parse s of Some f \<Rightarrow> Inr f | None \<Rightarrow> Inl ValueError)"
| "py_float parse JNull = Inl TypeError"
| "py_float parse (JList xs) = Inl TypeError"
| "py_float parse (JDict d) = Inl TypeError"

text \<open>
  \<^verbatim>\<open>frame_idx / 30.0\<close>: the index is converted to a float, which is an integer, and
  the quotient of the two floats is rounded. The index of a list element is below
  \<open>2\<^sup>6\<^sup>3\<close>, so its conversion does not overflow.
\<close>

definition truediv_30 :: "nat \<Rightarrow> pyfloat" where
  "truediv_30 frame_idx =
     (case round_quotient frame_idx 1 of
        Fin x \<Rightarrow> round_quotient (nat \<lfloor>x\<rfloor>) 30
      | other \<Rightarrow> other)"

subsection \<open>Sets of hashable values\<close>

text \<open>
  \<^verbatim>\<open>tasks = set()\<close> holds what \<^verbatim>\<open>episode.metadata.get("languageInstruction", ...)\<close>
  returns, which is any JSON value. Lists and dicts are unhashable; numbers and bools
  are equal when their values are; \<^verbatim>\<open>nan\<close> equals nothing (every parsed \<^verbatim>\<open>nan\<close> is an
  object of its own). The set is kept as the list
  of its elements in the order they were first added.
\<close>

fun hashable :: "json \<Rightarrow> bool" where
  "hashable (JList xs) = False"
| "hashable (JDict d) = False"
| "hashable v = True"

fun num_val :: "json \<Rightarrow> pyfloat option" where
  "num_val (JBool b) = Some (Fin (if b then 1 else 0))"
| "num_val (JInt i) = Some (Fin (of_int i))"
| "num_val (JFloat f) = Some f"
| "num_val v = None"

definition py_eq :: "json \<Rightarrow> json \<Rightarrow> bool" where
  "py_eq a b =
     (case (num_val a, num_val b) of
        (Some x, Some y) \<Rightarrow> x = y \<and> x \<noteq> NaN
      | (None, None) \<Rightarrow> a = b
      | _ \<Rightarrow> False)"

definition set_add :: "json \<Rightarrow> json list \<Rightarrow> exn + json list" where
  "set_add x s =
     (if \<not> hashable x then Inl TypeError
      else if list_ex (py_eq x) s then Inr s
      else Inr (s @ [x]))"


text \<open>\<^verbatim>\<open>str(n)\<close> for a length, as the f-strings of the compiler print it.\<close>

fun str_nat :: "nat \<Rightarrow> string" where
  "str_nat n =
     (if n < 10 then [''0123456789'' ! n]
      else str_nat (n div 10) @ [''0123456789'' ! (n mod 10)])"

declare str_nat.simps [simp del]

text \<open>\<^verbatim>\<open>bytes.hex()\<close>: two lower-case hexadecimal digits for each byte.\<close>

definition hex_byte :: "8 word \<Rightarrow> string" where
  "hex_byte b =
     [''0123456789abcdef'' ! (unat b div 16), ''0123456789abcdef'' ! (unat b mod 16)]"

definition bytes_hex :: "8 word list \<Rightarrow> string" where
  "bytes_hex bs = concat (map hex_byte bs)"

section \<open>Requests\<close>

text \<open>
  The request models of \<^verbatim>\<open>main.py\<close> (lines 66 to 86). Validation has run when a
  handler starts: \<open>episodeIndex\<close> is an int, every frame and every \<open>metadata\<close> is a
  dict, of any content.
\<close>

record Episode =
  episodeIndex :: int
  frames :: "pydict list"
  metadata :: pydict

record DatasetMetadata =
  robotType :: string
  totalFrames :: int
  totalEpisodes :: int
  fps :: int
  features :: pydict

record UploadRequest =
  episodes :: "Episode list"
  metadata :: DatasetMetadata
  hfToken :: string
  repoName :: string
  isPrivate :: bool
  description :: "string option"

record UploadResponse =
  success :: bool
  repoUrl :: string
  message :: string

section \<open>Tables and collaborators\<close>

text \<open>
  An Arrow array is its type and its cells (\<open>JNull\<close> for a null cell), a table the
  list of its named columns. The bundle is what directory mode leaves in the temporary
  folder: the table written to \<^verbatim>\<open>data/train-00000-of-00001.parquet\<close> with the bytes of
  that file (both absent when there is no row), \<^verbatim>\<open>meta/info.json\<close>, the lines of
  \<^verbatim>\<open>meta/episodes.jsonl\<close> and \<^verbatim>\<open>meta/tasks.jsonl\<close>, and the values that the template of
  \<^verbatim>\<open>README.md\<close> interpolates.
\<close>

datatype dtype =
    Pa_null
  | Pa_bool
  | Pa_int64
  | Pa_float32
  | Pa_float64
  | Pa_string
  | Pa_list dtype
  | Pa_fixed_list dtype nat
  | Pa_struct "(string \<times> dtype) list"

datatype arrow_array = Arr dtype "json list"

type_synonym table = "(string \<times> arrow_array) list"

fun cells :: "arrow_array \<Rightarrow> json list" where
  "cells (Arr ty vs) = vs"

fun array_type :: "arrow_array \<Rightarrow> dtype" where
  "array_type (Arr ty vs) = ty"

definition column_names :: "table \<Rightarrow> string list" where
  "column_names t = map fst t"

text \<open>\<^verbatim>\<open>table.num_rows\<close>: the length of the columns, which all have the same length.\<close>

definition table_num_rows :: "table \<Rightarrow> nat" where
  "table_num_rows t = (case t of [] \<Rightarrow> 0 | (name, arr) # cols \<Rightarrow> length (cells arr))"

record dataset_bundle =
  parquet_table :: "table option"
  parquet_file :: "8 word list option"
  info_json :: pydict
  episodes_jsonl :: "pydict list"
  tasks_jsonl :: "pydict list"
  readme_md :: pydict

text \<open>The calls made to the archival service, in order.\<close>

datatype hub_call = Create_repo string bool | Upload_folder string dataset_bundle

text \<open>
  What the compiler calls and \<^verbatim>\<open>src/\<close> does not hold, as parameters:
  \<^item> \<open>float_of_str\<close>: the parser of \<^verbatim>\<open>float(s)\<close> for a string;
  \<^item> \<open>set_iter\<close>: the order in which a Python set yields its elements, given in the
    order they were added;
  \<^item> \<open>cast\<close>: the Arrow conversion of a Python value to a requested type, for every
    case that \<open>pa_scalar\<close> and \<open>pa_value\<close> below do not fix; \<open>narrow32\<close>: the
    narrowing of a float to 32 bits;
  \<^item> \<open>infer\<close>: the type that \<^verbatim>\<open>pa.array\<close> and \<^verbatim>\<open>pa.table\<close> infer for a column when
    none is given, or the exception for values that have no common type;
  \<^item> \<open>write_table\<close>: the Parquet serialisation of \<^verbatim>\<open>pq.write_table\<close>, the bytes it
    writes or the exception it raises;
  \<^item> \<open>whoami\<close> (the account name for a token), \<open>create_repo\<close> and \<open>upload_folder\<close>:
    the archival service.
\<close>

record env =
  float_of_str :: "string \<Rightarrow> pyfloat option"
  set_iter :: "json list \<Rightarrow> json list"
  cast :: "dtype \<Rightarrow> json \<Rightarrow> exn + json"
  narrow32 :: "pyfloat \<Rightarrow> pyfloat"
  infer :: "json list \<Rightarrow> exn + dtype"
  write_table :: "table \<Rightarrow> exn + 8 word list"
  whoami :: "string \<Rightarrow> exn + string"
  create_repo :: "string \<Rightarrow> string \<Rightarrow> bool \<Rightarrow> exn + unit"
  upload_folder :: "string \<Rightarrow> dataset_bundle \<Rightarrow> exn + unit"

text \<open>
  Modelled from the spec: the conversion of one Python value to an Arrow scalar type is
  the Arrow library's, not in \<^verbatim>\<open>src/\<close>. Section 4.3 of the specification has scalar
  columns with a null marker for a missing value and vectors coerced to 32-bit floats:
  \<^verbatim>\<open>None\<close> is a null cell, a float in a 64-bit float column is stored as it is, in a
  32-bit one narrowed, and an int that fits 64 bits is stored in an int64 column as it
  is. Every other conversion is the parameter \<open>cast\<close>.
\<close>

definition pa_scalar :: "env \<Rightarrow> dtype \<Rightarrow> json \<Rightarrow> exn + json" where
  "pa_scalar E ty v =
     (case v of
        JNull \<Rightarrow> Inr JNull
      | JFloat f \<Rightarrow>
          (if ty = Pa_float64 then Inr (JFloat f)
           else if ty = Pa_float32 then Inr (JFloat (narrow32 E f))
           else cast E ty v)
      | JInt i \<Rightarrow>
          (if ty = Pa_int64 \<and> - (2 ^ 63) \<le> i \<and> i < 2 ^ 63 then Inr (JInt i)
           else cast E ty v)
      | _ \<Rightarrow> cast E ty v)"

text \<open>
  Modelled from the spec: \<^verbatim>\<open>pa.array(values, type=pa.list_(pa.float32(), w))\<close> is the
  Arrow library's, not in \<^verbatim>\<open>src/\<close>. Section 4.3 and section 7 of the specification give
  its failure mode: an item of a fixed-width vector column whose length is not the
  declared width is a dimension mismatch, and the array is not built. The elements of a
  list are converted first, then its length is checked; \<^verbatim>\<open>None\<close> is a null cell; a
  value that is not a list is left to \<open>cast\<close>.
\<close>

definition pa_value :: "env \<Rightarrow> dtype \<Rightarrow> json \<Rightarrow> exn + json" where
  "pa_value E ty v =
     (case ty of
        Pa_fixed_list t w \<Rightarrow>
          (case v of
             JNull \<Rightarrow> Inr JNull
           | JList xs \<Rightarrow>
               (case emap (pa_scalar E t) xs of
                  Inl e \<Rightarrow> Inl e
                | Inr ys \<Rightarrow>
                    if length xs = w then Inr (JList ys)
                    else Inl (ArrowInvalid_length w (length xs)))
           | _ \<Rightarrow> cast E ty v)
      | _ \<Rightarrow> pa_scalar E ty v)"

text \<open>
  Modelled from the spec: \<^verbatim>\<open>pa.array(values, type=t)\<close> (the Arrow library's) converts the
  values in order, and the first exception ends it; the array has one cell for each
  value.
\<close>

definition pa_array :: "env \<Rightarrow> json list \<Rightarrow> dtype \<Rightarrow> exn + arrow_array" where
  "pa_array E vals ty =
     (case emap (pa_value E ty) vals of Inl e \<Rightarrow> Inl e | Inr cs \<Rightarrow> Inr (Arr ty cs))"


section \<open>Directory mode: \<^verbatim>\<open>upload_dataset\<close>\<close>

subsection \<open>Row projection (lines 161 to 185)\<close>

text \<open>\<^verbatim>\<open>if key in src: row[field] = src[key]\<close>\<close>

definition copy_if_present :: "json \<Rightarrow> string \<Rightarrow> string \<Rightarrow> pydict \<Rightarrow> exn + pydict" where
  "copy_if_present src key field row =
     ebind (py_contains key src) (\<lambda>present.
       if present then ebind (py_getitem src key) (\<lambda>v. Inr (dict_set row field v))
       else Inr row)"

definition project_row :: "int \<Rightarrow> nat \<Rightarrow> pydict \<Rightarrow> exn + pydict" where
  "project_row ep_idx frame_idx frame =
     (let obs = dict_get frame ''observation'' (JDict []);
          action = dict_get frame ''action'' (JDict []);
          row = [(''episode_index'', JInt ep_idx),
                 (''frame_index'', JInt (int frame_idx)),
                 (''timestamp'', dict_get frame ''timestamp'' (JFloat (truediv_30 frame_idx))),
                 (''task_index'', JInt 0)]
      in ebind (copy_if_present obs ''jointPositions'' ''observation.state'' row) (\<lambda>row.
         ebind (copy_if_present obs ''image'' ''observation.image'' row) (\<lambda>row.
         ebind (py_contains ''jointPositions'' action) (\<lambda>has_joints.
           if has_joints
           then ebind (py_getitem action ''jointPositions'') (\<lambda>v. Inr (dict_set row ''action'' v))
           else copy_if_present action ''targetPositions'' ''action'' row))))"

text \<open>\<^verbatim>\<open>for frame_idx, frame in enumerate(episode.frames)\<close>, from index \<open>k\<close> on.\<close>

fun project_frames :: "int \<Rightarrow> nat \<Rightarrow> pydict list \<Rightarrow> exn + pydict list" where
  "project_frames ep_idx k [] = Inr []"
| "project_frames ep_idx k (frame # fs) =
     (case project_row ep_idx k frame of
        Inl e \<Rightarrow> Inl e
      | Inr row \<Rightarrow>
          (case project_frames ep_idx (Suc k) fs of
             Inl e \<Rightarrow> Inl e
           | Inr rows \<Rightarrow> Inr (row # rows)))"

subsection \<open>The episode loop (lines 146 to 185)\<close>

definition episode_task :: "Episode \<Rightarrow> json" where
  "episode_task episode =
     dict_get (Episode.metadata episode) ''languageInstruction'' (JStr ''manipulation task'')"

definition episode_meta :: "Episode \<Rightarrow> pydict" where
  "episode_meta episode =
     [(''episode_index'', JInt (episodeIndex episode)),
      (''tasks'', JList [episode_task episode]),
      (''length'', JInt (int (length (frames episode))))]"

text \<open>The state of the loop is \<open>(all_rows, episode_metadata, tasks)\<close>.\<close>

fun upload_loop ::
  "Episode list \<Rightarrow> pydict list \<times> pydict list \<times> json list \<Rightarrow>
     exn + pydict list \<times> pydict list \<times> json list" where
  "upload_loop [] st = Inr st"
| "upload_loop (episode # eps) (all_rows, episode_metadata, tasks) =
     (case set_add (episode_task episode) tasks of
        Inl e \<Rightarrow> Inl e
      | Inr tasks' \<Rightarrow>
          (case project_frames (episodeIndex episode) 0 (frames episode) of
             Inl e \<Rightarrow> Inl e
           | Inr rows \<Rightarrow>
               upload_loop eps
                 (all_rows @ rows, episode_metadata @ [episode_meta episode], tasks')))"

subsection \<open>Schema, columns and table (lines 188 to 233)\<close>

text \<open>\<^verbatim>\<open>if name in sample_row: dim = len(sample_row[name]); ... pa.list_(pa.float32(), dim)\<close>\<close>

definition vector_field :: "pydict \<Rightarrow> string \<Rightarrow> exn + (string \<times> dtype) list" where
  "vector_field sample_row name =
     (case map_of sample_row name of
        None \<Rightarrow> Inr []
      | Some v \<Rightarrow> ebind (py_len v) (\<lambda>dim. Inr [(name, Pa_fixed_list Pa_float32 dim)]))"

definition schema_fields :: "pydict \<Rightarrow> exn + (string \<times> dtype) list" where
  "schema_fields sample_row =
     ebind (vector_field sample_row ''observation.state'') (\<lambda>state.
     ebind (vector_field sample_row ''action'') (\<lambda>action.
       Inr ([(''episode_index'', Pa_int64), (''frame_index'', Pa_int64),
             (''timestamp'', Pa_float64), (''task_index'', Pa_int64)] @ state @ action)))"

text \<open>
  Lines 208 to 218, for one row and one field: a list value becomes the list of
  \<^verbatim>\<open>float(v)\<close> of its elements, another value is kept, a missing field is \<^verbatim>\<open>None\<close>.
\<close>

definition cell_value :: "env \<Rightarrow> pydict \<Rightarrow> string \<Rightarrow> exn + json" where
  "cell_value E row field_name =
     (case map_of row field_name of
        None \<Rightarrow> Inr JNull
      | Some val \<Rightarrow>
          (case val of
             JList vs \<Rightarrow>
               (case emap (py_float (float_of_str E)) vs of
                  Inl e \<Rightarrow> Inl e
                | Inr fs \<Rightarrow> Inr (JList (map JFloat fs)))
           | _ \<Rightarrow> Inr val))"

text \<open>
  The loop of lines 208 to 218 runs row by row, and within a row field by field; the
  columns are then the first cells of every row, the second cells, and so on.
\<close>

fun columns_of :: "string list \<Rightarrow> json list list \<Rightarrow> (string \<times> json list) list" where
  "columns_of [] rows_cells = []"
| "columns_of (name # names) rows_cells =
     (name, map hd rows_cells) # columns_of names (map tl rows_cells)"

definition to_columns ::
  "env \<Rightarrow> (string \<times> dtype) list \<Rightarrow> pydict list \<Rightarrow> exn + (string \<times> json list) list" where
  "to_columns E schema all_rows =
     (case emap (\<lambda>row. emap (cell_value E row) (map fst schema)) all_rows of
        Inl e \<Rightarrow> Inl e
      | Inr rows_cells \<Rightarrow> Inr (columns_of (map fst schema) rows_cells))"

text \<open>
  Lines 221 to 233 (reached with at least one row, line 188): one array for each schema field that has a non-empty column, in
  schema order. The field names are distinct, so \<^verbatim>\<open>dict(zip(names, arrays))\<close> is the
  list of the pairs.
\<close>

fun build_arrays ::
  "env \<Rightarrow> (string \<times> dtype) list \<Rightarrow> (string \<times> json list) list \<Rightarrow> exn + table" where
  "build_arrays E [] columns = Inr []"
| "build_arrays E ((field_name, field_type) # schema) columns =
     (case map_of columns field_name of
        Some (v # vs) \<Rightarrow>
          (case pa_array E (v # vs) field_type of
             Inl e \<Rightarrow> Inl e
           | Inr arr \<Rightarrow>
               (case build_arrays E schema columns of
                  Inl e \<Rightarrow> Inl e
                | Inr t \<Rightarrow> Inr ((field_name, arr) # t)))
      | _ \<Rightarrow> build_arrays E schema columns)"

definition make_table :: "env \<Rightarrow> pydict list \<Rightarrow> exn + table" where
  "make_table E all_rows =
     (case all_rows of
        [] \<Rightarrow> Inr []
      | sample_row # _ \<Rightarrow>
          ebind (schema_fields sample_row) (\<lambda>schema.
          ebind (to_columns E schema all_rows) (\<lambda>columns.
            build_arrays E schema columns)))"

subsection \<open>Metadata (lines 240 to 272)\<close>

definition total_frames :: "Episode list \<Rightarrow> nat" where
  "total_frames eps = sum_list (map (\<lambda>ep. length (frames ep)) eps)"

definition joint_names :: json where
  "joint_names =
     JList [JStr ''joint_1'', JStr ''joint_2'', JStr ''joint_3'', JStr ''joint_4'',
            JStr ''joint_5'', JStr ''gripper'']"

text \<open>\<^verbatim>\<open>[len(all_rows[0].get(name, []))] if all_rows else [6]\<close>\<close>

definition feature_shape :: "pydict list \<Rightarrow> string \<Rightarrow> exn + json" where
  "feature_shape all_rows name =
     (case all_rows of
        [] \<Rightarrow> Inr (JList [JInt 6])
      | row # _ \<Rightarrow>
          ebind (py_len (dict_get row name (JList []))) (\<lambda>n. Inr (JList [JInt (int n)])))"

definition feature :: "json \<Rightarrow> json" where
  "feature shape =
     JDict [(''dtype'', JStr ''float32''), (''shape'', shape), (''names'', joint_names)]"

definition make_info :: "UploadRequest \<Rightarrow> pydict list \<Rightarrow> exn + pydict" where
  "make_info request all_rows =
     ebind (feature_shape all_rows ''observation.state'') (\<lambda>state_shape.
     ebind (feature_shape all_rows ''action'') (\<lambda>action_shape.
       Inr [(''codebase_version'', JStr ''v3.0''),
            (''robot_type'', JStr (robotType (UploadRequest.metadata request))),
            (''fps'', JInt (fps (UploadRequest.metadata request))),
            (''total_episodes'', JInt (int (length (episodes request)))),
            (''total_frames'', JInt (int (total_frames (episodes request)))),
            (''features'', JDict [(''observation.state'', feature state_shape),
                                  (''action'', feature action_shape)]),
            (''splits'',
               JDict [(''train'', JStr (''0:'' @ str_nat (length (episodes request))))])]))"

text \<open>\<^verbatim>\<open>for i, task in enumerate(tasks)\<close>, from index \<open>i\<close> on.\<close>

fun task_lines :: "nat \<Rightarrow> json list \<Rightarrow> pydict list" where
  "task_lines i [] = []"
| "task_lines i (task # ts) =
     [(''task_index'', JInt (int i)), (''task'', task)] # task_lines (Suc i) ts"

definition make_readme :: "UploadRequest \<Rightarrow> string \<Rightarrow> pydict" where
  "make_readme request repo_id =
     [(''repoName'', JStr (repoName request)),
      (''robotType'', JStr (robotType (UploadRequest.metadata request))),
      (''total_episodes'', JInt (int (length (episodes request)))),
      (''total_frames'', JInt (int (total_frames (episodes request)))),
      (''fps'', JInt (fps (UploadRequest.metadata request))),
      (''repo_id'', JStr repo_id)]"

subsection \<open>The compile step and the handler\<close>

text \<open>
  Lines 138 to 313, the body of the \<^verbatim>\<open>with tempfile.TemporaryDirectory()\<close> block up
  to the upload: every file of the bundle, or the first exception. With at least one row
  the table is built and \<^verbatim>\<open>pq.write_table\<close> writes it (lines 188 to 237).
\<close>

definition compile_bundle :: "env \<Rightarrow> UploadRequest \<Rightarrow> string \<Rightarrow> exn + dataset_bundle" where
  "compile_bundle E request repo_id =
     ebind (upload_loop (episodes request) ([], [], [])) (\<lambda>(all_rows, episode_metadata, tasks).
     ebind (if all_rows \<noteq> []
            then ebind (make_table E all_rows) (\<lambda>table.
                 ebind (write_table E table) (\<lambda>file. Inr (Some table, Some file)))
            else Inr (None, None))
       (\<lambda>(table, file).
     ebind (make_info request all_rows) (\<lambda>info.
       Inr \<lparr>parquet_table = table,
            parquet_file = file,
            info_json = info,
            episodes_jsonl = episode_metadata,
            tasks_jsonl = task_lines 0 (set_iter E tasks),
            readme_md = make_readme request repo_id\<rparr>)))"

text \<open>
  \<^verbatim>\<open>except HTTPException: raise\<close>, then
  \<^verbatim>\<open>except Exception as e: raise HTTPException(status_code=500, detail=str(e))\<close>.
\<close>

fun reraise :: "exn \<Rightarrow> exn" where
  "reraise (HTTPException status d) = HTTPException status d"
| "reraise e = HTTPException 500 (Str e)"

text \<open>
  The handler (lines 102 to 334) returns the calls it made to the archival service and
  its response, or the exception that the web framework turns into an error response.
\<close>

definition upload_dataset :: "env \<Rightarrow> UploadRequest \<Rightarrow> hub_call list \<times> (exn + UploadResponse)" where
  "upload_dataset E request =
     (case whoami E (hfToken request) of
        Inl e \<Rightarrow> ([], Inl (HTTPException 401 (Prefixed ''Invalid HuggingFace token: '' e)))
      | Inr username \<Rightarrow>
          (let repo_id = username @ ''/'' @ repoName request;
               created = [Create_repo repo_id (isPrivate request)]
           in case create_repo E repo_id (hfToken request) (isPrivate request) of
                Inl e \<Rightarrow>
                  (created, Inl (HTTPException 500 (Prefixed ''Failed to create repo: '' e)))
              | Inr u \<Rightarrow>
                  (case compile_bundle E request repo_id of
                     Inl e \<Rightarrow> (created, Inl (reraise e))
                   | Inr b \<Rightarrow>
                       (case upload_folder E repo_id b of
                          Inl e \<Rightarrow> (created @ [Upload_folder repo_id b], Inl (reraise e))
                        | Inr u \<Rightarrow>
                            (created @ [Upload_folder repo_id b],
                             Inr \<lparr>success = True,
                                  repoUrl = ''https://huggingface.co/datasets/'' @ repo_id,
                                  message = ''Successfully uploaded ''
                                    @ str_nat (length (episodes request))
                                    @ '' episodes to '' @ repo_id\<rparr>)))))"


section \<open>Buffer mode: \<^verbatim>\<open>convert_to_parquet\<close>\<close>

text \<open>Lines 349 to 364.\<close>

definition convert_row :: "int \<Rightarrow> nat \<Rightarrow> pydict \<Rightarrow> exn + pydict" where
  "convert_row ep_idx frame_idx frame =
     (let obs = dict_get frame ''observation'' (JDict []);
          action = dict_get frame ''action'' (JDict []);
          row = [(''episode_index'', JInt ep_idx),
                 (''frame_index'', JInt (int frame_idx)),
                 (''timestamp'', dict_get frame ''timestamp'' (JFloat (truediv_30 frame_idx)))]
      in ebind (copy_if_present obs ''jointPositions'' ''observation.state'' row) (\<lambda>row.
         copy_if_present action ''jointPositions'' ''action'' row))"

fun convert_frames :: "int \<Rightarrow> nat \<Rightarrow> pydict list \<Rightarrow> exn + pydict list" where
  "convert_frames ep_idx k [] = Inr []"
| "convert_frames ep_idx k (frame # fs) =
     (case convert_row ep_idx k frame of
        Inl e \<Rightarrow> Inl e
      | Inr row \<Rightarrow>
          (case convert_frames ep_idx (Suc k) fs of
             Inl e \<Rightarrow> Inl e
           | Inr rows \<Rightarrow> Inr (row # rows)))"

fun convert_loop :: "Episode list \<Rightarrow> pydict list \<Rightarrow> exn + pydict list" where
  "convert_loop [] all_rows = Inr all_rows"
| "convert_loop (episode # eps) all_rows =
     (case convert_frames (episodeIndex episode) 0 (frames episode) of
        Inl e \<Rightarrow> Inl e
      | Inr rows \<Rightarrow> convert_loop eps (all_rows @ rows))"

text \<open>Lines 370 to 379: \<^verbatim>\<open>[r[name] for r in all_rows]\<close> and \<^verbatim>\<open>[r.get(name, []) ...]\<close>.\<close>

definition required_column :: "string \<Rightarrow> pydict list \<Rightarrow> exn + (string \<times> json list) list" where
  "required_column name all_rows =
     ebind (emap (\<lambda>r. py_getitem (JDict r) name) all_rows) (\<lambda>vals. Inr [(name, vals)])"

definition optional_column :: "string \<Rightarrow> pydict list \<Rightarrow> (string \<times> json list) list" where
  "optional_column name all_rows =
     (case all_rows of
        [] \<Rightarrow> []
      | sample_row # _ \<Rightarrow>
          if map_of sample_row name \<noteq> None
          then [(name, map (\<lambda>r. dict_get r name (JList [])) all_rows)]
          else [])"

definition convert_columns :: "pydict list \<Rightarrow> exn + (string \<times> json list) list" where
  "convert_columns all_rows =
     ebind (required_column ''episode_index'' all_rows) (\<lambda>c1.
     ebind (required_column ''frame_index'' all_rows) (\<lambda>c2.
     ebind (required_column ''timestamp'' all_rows) (\<lambda>c3.
       Inr (c1 @ c2 @ c3 @ optional_column ''observation.state'' all_rows
              @ optional_column ''action'' all_rows))))"

text \<open>\<^verbatim>\<open>pa.table(columns)\<close>: each column becomes an array of the type inferred for it.\<close>

definition pa_table :: "env \<Rightarrow> (string \<times> json list) list \<Rightarrow> exn + table" where
  "pa_table E columns =
     emap (\<lambda>(name, vals).
             ebind (infer E vals) (\<lambda>ty.
             ebind (pa_array E vals ty) (\<lambda>arr. Inr (name, arr))))
          columns"

definition convert_table :: "env \<Rightarrow> pydict list \<Rightarrow> exn + table" where
  "convert_table E all_rows = ebind (convert_columns all_rows) (pa_table E)"

text \<open>The body of the \<^verbatim>\<open>try\<close> block, lines 344 to 392.\<close>

definition convert_body :: "env \<Rightarrow> Episode list \<Rightarrow> exn + pydict" where
  "convert_body E eps =
     ebind (convert_loop eps []) (\<lambda>all_rows.
       if all_rows = [] then Inl (HTTPException 400 (Text ''No frames to convert''))
       else
         ebind (convert_table E all_rows) (\<lambda>table.
         ebind (write_table E table) (\<lambda>file.
           Inr [(''success'', JBool True),
                (''parquet_base64'', JStr (bytes_hex file)),
                (''num_rows'', JInt (int (length all_rows)))])))"

text \<open>
  Lines 394 and 395: the only handler is
  \<^verbatim>\<open>except Exception as e: raise HTTPException(status_code=500, detail=str(e))\<close>,
  and \<^verbatim>\<open>HTTPException\<close> is an \<^verbatim>\<open>Exception\<close>.
\<close>

definition convert_to_parquet :: "env \<Rightarrow> Episode list \<Rightarrow> exn + pydict" where
  "convert_to_parquet E eps =
     (case convert_body E eps of
        Inl e \<Rightarrow> Inl (HTTPException 500 (Str e))
      | Inr response \<Rightarrow> Inr response)"

section \<open>A sample environment\<close>

text \<open>
  Collaborators for evaluating the handlers on concrete batches: a library that infers
  the type of a column from its first value and, beyond the conversions fixed in
  \<open>pa_scalar\<close> and \<open>pa_value\<close>, stores an int of at most 53 bits in a float column and
  a list in a list column; a set that yields its elements in insertion order; a serialisation that writes
  the four bytes \<^verbatim>\<open>PAR1\<close> and the number of columns; an archival service that accepts
  every call.
\<close>

fun sample_infer :: "json list \<Rightarrow> exn + dtype" where
  "sample_infer (JInt i # vs) = Inr Pa_int64"
| "sample_infer (JFloat f # vs) = Inr Pa_float64"
| "sample_infer (JList xs # vs) = Inr (Pa_list Pa_float64)"
| "sample_infer vs = Inl (Library ''ArrowInvalid'')"

fun sample_cast :: "dtype \<Rightarrow> json \<Rightarrow> exn + json" where
  "sample_cast Pa_float64 (JInt i) =
     (if \<bar>i\<bar> \<le> 2 ^ 53 then Inr (JFloat (Fin (of_int i))) else Inl (Library ''ArrowInvalid''))"
| "sample_cast (Pa_list t) (JList xs) = Inr (JList xs)"
| "sample_cast ty v = Inl (Library ''ArrowInvalid'')"

definition sample_env :: env where
  "sample_env =
     \<lparr>float_of_str = (\<lambda>s. None),
      set_iter = (\<lambda>xs. xs),
      cast = sample_cast,
      narrow32 = (\<lambda>f. f),
      infer = sample_infer,
      write_table = (\<lambda>t. Inr [0x50, 0x41, 0x52, 0x31, of_nat (length t)]),
      whoami = (\<lambda>token. Inr ''alice''),
      create_repo = (\<lambda>repo_id token private. Inr ()),
      upload_folder = (\<lambda>repo_id b. Inr ())\<rparr>"


section \<open>Notions for stating the properties\<close>

text \<open>
  The rows of one episode in directory mode, when all its frames project; the rows of a
  batch are the rows of its episodes, one after the other (\<open>upload_loop_Inr\<close> below).
\<close>

definition episode_rows :: "Episode \<Rightarrow> pydict list" where
  "episode_rows ep = projr (project_frames (episodeIndex ep) 0 (frames ep))"

text \<open>The column of a field: the cell of every row, in order.\<close>

definition field_column :: "env \<Rightarrow> pydict list \<Rightarrow> string \<Rightarrow> json list" where
  "field_column E all_rows n = map (\<lambda>row. projr (cell_value E row n)) all_rows"

text \<open>A row without one of its fields.\<close>

definition without_field :: "string \<Rightarrow> pydict \<Rightarrow> pydict" where
  "without_field name row = filter (\<lambda>kv. fst kv \<noteq> name) row"

text \<open>
  A row without its two vector fields: the batch without them says what else is right
  in a batch whose vector fields are ragged.
\<close>

definition without_vectors :: "pydict \<Rightarrow> pydict" where
  "without_vectors row = without_field ''observation.state'' (without_field ''action'' row)"

text \<open>
  A frame whose \<open>observation\<close> and \<open>action\<close> entries, when it has them, are dicts.
\<close>

definition well_formed_frame :: "pydict \<Rightarrow> bool" where
  "well_formed_frame frame \<longleftrightarrow>
     (case map_of frame ''observation'' of
        None \<Rightarrow> True | Some v \<Rightarrow> (case v of JDict d \<Rightarrow> True | _ \<Rightarrow> False))
   \<and> (case map_of frame ''action'' of
        None \<Rightarrow> True | Some v \<Rightarrow> (case v of JDict d \<Rightarrow> True | _ \<Rightarrow> False))"

text \<open>
  What a row of directory mode and the row of buffer mode for the same frame share:
  episode index, frame index, timestamp and state; only the first has a task index.
\<close>

definition same_base_fields :: "pydict \<Rightarrow> pydict \<Rightarrow> bool" where
  "same_base_fields row_u row_c \<longleftrightarrow>
     map_of row_c ''episode_index'' = map_of row_u ''episode_index''
   \<and> map_of row_c ''frame_index'' = map_of row_u ''frame_index''
   \<and> map_of row_c ''timestamp'' = map_of row_u ''timestamp''
   \<and> map_of row_c ''observation.state'' = map_of row_u ''observation.state''
   \<and> map_of row_u ''task_index'' = Some (JInt 0)
   \<and> map_of row_c ''task_index'' = None"

section \<open>Sample batches\<close>

text \<open>
  The scenario of section 8 of the specification: one episode of three frames with
  six joint positions each, no timestamps, one language instruction. The timestamps of
  the rows are the floats \<^verbatim>\<open>0.0\<close>, \<^verbatim>\<open>1 / 30.0\<close> (\<^verbatim>\<open>0x1.1111111111111p-5\<close>) and
  \<^verbatim>\<open>2 / 30.0\<close> (\<^verbatim>\<open>0x1.1111111111111p-4\<close>).
\<close>

definition cube_frame :: pydict where
  "cube_frame =
     [(''observation'',
         JDict [(''jointPositions'', JList [JInt 0, JInt 0, JInt 0, JInt 0, JInt 0, JInt 0])]),
      (''action'',
         JDict [(''jointPositions'',
                   JList [JFloat (Fin (1 / 10)), JInt 0, JInt 0, JInt 0, JInt 0, JInt 0])])]"

definition cube_episode :: Episode where
  "cube_episode =
     \<lparr>episodeIndex = 0,
      frames = [cube_frame, cube_frame, cube_frame],
      metadata = [(''languageInstruction'', JStr ''pick up the cube'')]\<rparr>"

definition cube_request :: UploadRequest where
  "cube_request =
     \<lparr>episodes = [cube_episode],
      metadata = \<lparr>robotType = ''so101'', totalFrames = 3, totalEpisodes = 1, fps = 50,
                  features = []\<rparr>,
      hfToken = ''token'',
      repoName = ''cubes'',
      isPrivate = True,
      description = None\<rparr>"

definition cube_rows :: "pydict list" where
  "cube_rows =
     map (\<lambda>(k, t).
            [(''episode_index'', JInt 0), (''frame_index'', JInt k),
             (''timestamp'', JFloat (Fin t)), (''task_index'', JInt 0),
             (''observation.state'', JList [JInt 0, JInt 0, JInt 0, JInt 0, JInt 0, JInt 0]),
             (''action'',
                JList [JFloat (Fin (1 / 10)), JInt 0, JInt 0, JInt 0, JInt 0, JInt 0])])
         [(0, 0), (1, 4803839602528529 / 2 ^ 57), (2, 4803839602528529 / 2 ^ 56)]"

definition cube_table :: table where
  "cube_table =
     [(''episode_index'', Arr Pa_int64 [JInt 0, JInt 0, JInt 0]),
      (''frame_index'', Arr Pa_int64 [JInt 0, JInt 1, JInt 2]),
      (''timestamp'',
         Arr Pa_float64 [JFloat (Fin 0), JFloat (Fin (4803839602528529 / 2 ^ 57)),
                         JFloat (Fin (4803839602528529 / 2 ^ 56))]),
      (''task_index'', Arr Pa_int64 [JInt 0, JInt 0, JInt 0]),
      (''observation.state'',
         Arr (Pa_fixed_list Pa_float32 6)
           (replicate 3 (JList (replicate 6 (JFloat (Fin 0)))))),
      (''action'',
         Arr (Pa_fixed_list Pa_float32 6)
           (replicate 3 (JList (JFloat (Fin (1 / 10)) # replicate 5 (JFloat (Fin 0))))))]"

definition cube_bundle :: dataset_bundle where
  "cube_bundle =
     \<lparr>parquet_table = Some cube_table,
      parquet_file = Some [0x50, 0x41, 0x52, 0x31, 0x06],
      info_json =
        [(''codebase_version'', JStr ''v3.0''),
         (''robot_type'', JStr ''so101''),
         (''fps'', JInt 50),
         (''total_episodes'', JInt 1),
         (''total_frames'', JInt 3),
         (''features'',
            JDict [(''observation.state'', feature (JList [JInt 6])),
                   (''action'', feature (JList [JInt 6]))]),
         (''splits'', JDict [(''train'', JStr ''0:1'')])],
      episodes_jsonl =
        [[(''episode_index'', JInt 0), (''tasks'', JList [JStr ''pick up the cube'']),
          (''length'', JInt 3)]],
      tasks_jsonl = [[(''task_index'', JInt 0), (''task'', JStr ''pick up the cube'')]],
      readme_md =
        [(''repoName'', JStr ''cubes''), (''robotType'', JStr ''so101''),
         (''total_episodes'', JInt 1), (''total_frames'', JInt 3), (''fps'', JInt 50),
         (''repo_id'', JStr ''alice/cubes'')]\<rparr>"

text \<open>
  A batch of one frame with two joint positions and no action, and the bundle that
  directory mode compiles from it with the sample environment.
\<close>

definition pair_request :: UploadRequest where
  "pair_request =
     \<lparr>episodes =
        [\<lparr>episodeIndex = 0,
          frames = [[(''observation'',
                        JDict [(''jointPositions'', JList [JFloat (Fin 1), JFloat (Fin 2)])])]],
          metadata = []\<rparr>],
      metadata = \<lparr>robotType = ''arm'', totalFrames = 1, totalEpisodes = 1, fps = 30,
                  features = []\<rparr>,
      hfToken = ''token'',
      repoName = ''pairs'',
      isPrivate = False,
      description = None\<rparr>"

definition pair_row :: pydict where
  "pair_row =
     [(''episode_index'', JInt 0), (''frame_index'', JInt 0), (''timestamp'', JFloat (Fin 0)),
      (''task_index'', JInt 0), (''observation.state'', JList [JFloat (Fin 1), JFloat (Fin 2)])]"

definition pair_bundle :: dataset_bundle where
  "pair_bundle =
     \<lparr>parquet_table =
        Some [(''episode_index'', Arr Pa_int64 [JInt 0]),
              (''frame_index'', Arr Pa_int64 [JInt 0]),
              (''timestamp'', Arr Pa_float64 [JFloat (Fin 0)]),
              (''task_index'', Arr Pa_int64 [JInt 0]),
              (''observation.state'',
                 Arr (Pa_fixed_list Pa_float32 2) [JList [JFloat (Fin 1), JFloat (Fin 2)]])],
      parquet_file = Some [0x50, 0x41, 0x52, 0x31, 0x05],
      info_json =
        [(''codebase_version'', JStr ''v3.0''),
         (''robot_type'', JStr ''arm''),
         (''fps'', JInt 30),
         (''total_episodes'', JInt 1),
         (''total_frames'', JInt 1),
         (''features'',
            JDict [(''observation.state'', feature (JList [JInt 2])),
                   (''action'', feature (JList [JInt 0]))]),
         (''splits'', JDict [(''train'', JStr ''0:1'')])],
      episodes_jsonl =
        [[(''episode_index'', JInt 0), (''tasks'', JList [JStr ''manipulation task'']),
          (''length'', JInt 1)]],
      tasks_jsonl = [[(''task_index'', JInt 0), (''task'', JStr ''manipulation task'')]],
      readme_md =
        [(''repoName'', JStr ''pairs''), (''robotType'', JStr ''arm''),
         (''total_episodes'', JInt 1), (''total_frames'', JInt 1), (''fps'', JInt 30),
         (''repo_id'', JStr ''alice/pairs'')]\<rparr>"

text \<open>
  A batch of three episodes without frames, two of them with the same instruction and
  one with none, and the bundle that directory mode compiles from it with the sample
  environment.
\<close>

definition tasks_request :: UploadRequest where
  "tasks_request =
     \<lparr>episodes =
        [\<lparr>episodeIndex = 0, frames = [], metadata = [(''languageInstruction'', JStr ''pick'')]\<rparr>,
         \<lparr>episodeIndex = 1, frames = [], metadata = []\<rparr>,
         \<lparr>episodeIndex = 2, frames = [], metadata = [(''languageInstruction'', JStr ''pick'')]\<rparr>],
      metadata = \<lparr>robotType = ''arm'', totalFrames = 0, totalEpisodes = 3, fps = 30,
                  features = []\<rparr>,
      hfToken = ''token'',
      repoName = ''tasks'',
      isPrivate = False,
      description = None\<rparr>"

definition tasks_bundle :: dataset_bundle where
  "tasks_bundle =
     \<lparr>parquet_table = None,
      parquet_file = None,
      info_json =
        [(''codebase_version'', JStr ''v3.0''),
         (''robot_type'', JStr ''arm''),
         (''fps'', JInt 30),
         (''total_episodes'', JInt 3),
         (''total_frames'', JInt 0),
         (''features'',
            JDict [(''observation.state'', feature (JList [JInt 6])),
                   (''action'', feature (JList [JInt 6]))]),
         (''splits'', JDict [(''train'', JStr ''0:3'')])],
      episodes_jsonl =
        [[(''episode_index'', JInt 0), (''tasks'', JList [JStr ''pick'']), (''length'', JInt 0)],
         [(''episode_index'', JInt 1), (''tasks'', JList [JStr ''manipulation task'']),
          (''length'', JInt 0)],
         [(''episode_index'', JInt 2), (''tasks'', JList [JStr ''pick'']), (''length'', JInt 0)]],
      tasks_jsonl =
        [[(''task_index'', JInt 0), (''task'', JStr ''pick'')],
         [(''task_index'', JInt 1), (''task'', JStr ''manipulation task'')]],
      readme_md =
        [(''repoName'', JStr ''tasks''), (''robotType'', JStr ''arm''),
         (''total_episodes'', JInt 3), (''total_frames'', JInt 0), (''fps'', JInt 30),
         (''repo_id'', JStr ''alice/tasks'')]\<rparr>"

text \<open>
  The batch of section 8 of the specification for the dimension invariant: the first
  frame has an action of six elements, the second one of five.
\<close>

definition ragged_request :: UploadRequest where
  "ragged_request =
     \<lparr>episodes =
        [\<lparr>episodeIndex = 0,
          frames =
            [[(''action'',
                 JDict [(''jointPositions'',
                           JList [JInt 1, JInt 2, JInt 3, JInt 4, JInt 5, JInt 6])])],
             [(''action'',
                 JDict [(''jointPositions'', JList [JInt 1, JInt 2, JInt 3, JInt 4, JInt 5])])]],
          metadata = []\<rparr>],
      metadata = \<lparr>robotType = ''arm'', totalFrames = 2, totalEpisodes = 1, fps = 30,
                  features = []\<rparr>,
      hfToken = ''token'',
      repoName = ''ragged'',
      isPrivate = True,
      description = None\<rparr>"

definition ragged_rows :: "pydict list" where
  "ragged_rows =
     [[(''episode_index'', JInt 0), (''frame_index'', JInt 0), (''timestamp'', JFloat (Fin 0)),
       (''task_index'', JInt 0),
       (''action'', JList [JInt 1, JInt 2, JInt 3, JInt 4, JInt 5, JInt 6])],
      [(''episode_index'', JInt 0), (''frame_index'', JInt 1),
       (''timestamp'', JFloat (Fin (4803839602528529 / 2 ^ 57))), (''task_index'', JInt 0),
       (''action'', JList [JInt 1, JInt 2, JInt 3, JInt 4, JInt 5])]]"

text \<open>
  Two rows that disagree on the width of both vector fields: the state has two elements
  and then one, the action three and then two.
\<close>

definition twice_ragged_rows :: "pydict list" where
  "twice_ragged_rows =
     [[(''episode_index'', JInt 0), (''frame_index'', JInt 0), (''timestamp'', JFloat (Fin 0)),
       (''task_index'', JInt 0),
       (''observation.state'', JList [JInt 1, JInt 2]),
       (''action'', JList [JInt 1, JInt 2, JInt 3])],
      [(''episode_index'', JInt 0), (''frame_index'', JInt 1),
       (''timestamp'', JFloat (Fin (4803839602528529 / 2 ^ 57))), (''task_index'', JInt 0),
       (''observation.state'', JList [JInt 1]),
       (''action'', JList [JInt 1, JInt 2])]]"

text \<open>
  A batch of two frames whose actions have two elements and one: the second is the
  string \<^verbatim>\<open>"x"\<close>, which \<^verbatim>\<open>float\<close> does not parse.
\<close>

definition unparsed_request :: UploadRequest where
  "unparsed_request =
     \<lparr>episodes =
        [\<lparr>episodeIndex = 0,
          frames =
            [[(''action'', JDict [(''jointPositions'', JList [JInt 1, JInt 2])])],
             [(''action'', JDict [(''jointPositions'', JList [JStr ''x''])])]],
          metadata = []\<rparr>],
      metadata = \<lparr>robotType = ''arm'', totalFrames = 2, totalEpisodes = 1, fps = 30,
                  features = []\<rparr>,
      hfToken = ''token'',
      repoName = ''unparsed'',
      isPrivate = True,
      description = None\<rparr>"

definition unparsed_rows :: "pydict list" where
  "unparsed_rows =
     [[(''episode_index'', JInt 0), (''frame_index'', JInt 0), (''timestamp'', JFloat (Fin 0)),
       (''task_index'', JInt 0), (''action'', JList [JInt 1, JInt 2])],
      [(''episode_index'', JInt 0), (''frame_index'', JInt 1),
       (''timestamp'', JFloat (Fin (4803839602528529 / 2 ^ 57))), (''task_index'', JInt 0),
       (''action'', JList [JStr ''x''])]]"

text \<open>
  Four frames for the timestamps: three without a \<open>timestamp\<close> entry, then one that
  has its own.
\<close>

definition clock_frames :: "pydict list" where
  "clock_frames =
     [[], [(''observation'', JDict [])], [(''action'', JDict [])],
      [(''timestamp'', JStr ''noon'')]]"

section \<open>Basic facts\<close>

subsection \<open>Rounding\<close>

lemma ilog2_bounds: "0 < n \<Longrightarrow> 2 ^ ilog2 n \<le> n \<and> n < 2 ^ Suc (ilog2 n)"
proof (induction n rule: ilog2.induct)
  case (1 n)
  show ?case
  proof (cases "n < 2")
    case True
    with 1(2) have "n = 1" by simp
    then show ?thesis by (simp add: ilog2.simps)
  next
    case False
    then have "0 < n div 2" by simp
    from 1(1) [OF False this]
    have "2 ^ ilog2 (n div 2) \<le> n div 2" "n div 2 < 2 ^ Suc (ilog2 (n div 2))" by simp_all
    then have "2 * 2 ^ ilog2 (n div 2) \<le> n" "n < 2 * 2 ^ Suc (ilog2 (n div 2))" by linarith+
    with False show ?thesis by (simp add: ilog2.simps [of n])
  qed
qed

lemma round_half_even_one: "round_half_even n (Suc 0) = n"
  by (simp add: round_half_even_def)

text \<open>An integer of at most 53 bits is a 64-bit float.\<close>

lemma round_quotient_exact:
  assumes "a \<le> 2 ^ 53"
  shows "round_quotient a (Suc 0) = Fin (of_nat a)"
proof (cases "a = 0")
  case True
  then show ?thesis by (simp add: round_quotient_def)
next
  case False
  then have pos: "0 < a" by simp
  from ilog2_bounds [OF pos] have lo: "2 ^ ilog2 a \<le> a" by simp
  have one: "ilog2 (Suc 0) = 0" by (simp add: ilog2.simps)
  have fl: "floor_log2 a (Suc 0) = int (ilog2 a)"
    using lo by (simp add: floor_log2_def one Let_def)
  have d: "ilog2 a \<le> 53"
  proof (rule power_le_imp_le_exp)
    show "(1::nat) < 2" by simp
    show "(2::nat) ^ ilog2 a \<le> 2 ^ 53" using lo assms by (rule order_trans)
  qed
  have small: "\<not> (2::rat) ^ 1024 \<le> of_nat a"
  proof -
    from assms have "(of_nat a :: rat) \<le> of_nat (2 ^ 53)" by (simp only: of_nat_le_iff)
    then have "(of_nat a :: rat) \<le> 2 ^ 53" by simp
    moreover have "(2::rat) ^ 53 < 2 ^ 1024" by simp
    ultimately show ?thesis by linarith
  qed
  show ?thesis
  proof (cases "ilog2 a = 53")
    case True
    with lo assms have a: "a = 2 ^ 53" by simp
    have "round_half_even (2 ^ 53) 2 = 2 ^ 52" by (simp add: round_half_even_def)
    with small show ?thesis
      using fl True False by (simp add: round_quotient_def Let_def a)
  next
    case False
    with d have "ilog2 a \<le> 52" by simp
    then have s: "0 \<le> 52 - int (ilog2 a)" by simp
    show ?thesis
      using small pos s by (simp add: round_quotient_def Let_def fl round_half_even_one)
  qed
qed

lemma float_of_int_exact [simp]:
  assumes "\<bar>i\<bar> \<le> 2 ^ 53"
  shows "float_of_int i = Inr (Fin (of_int i))"
proof -
  from assms have "nat \<bar>i\<bar> \<le> 2 ^ 53" by simp
  from round_quotient_exact [OF this] show ?thesis
    by (simp add: float_of_int_def)
qed

text \<open>
  For an index of at most 53 bits, \<^verbatim>\<open>frame_idx / 30.0\<close> is the 64-bit float nearest to
  the thirtieth of the index.
\<close>

lemma truediv_30_small: "k \<le> 2 ^ 53 \<Longrightarrow> truediv_30 k = round_quotient k 30"
  by (simp add: truediv_30_def round_quotient_exact)

lemma truediv_30_at_0: "truediv_30 0 = Fin 0"
  by (simp add: truediv_30_small round_quotient_def)

lemma truediv_30_at_1: "truediv_30 (Suc 0) = Fin (4803839602528529 / 2 ^ 57)"
  by (simp add: truediv_30_small round_quotient_def floor_log2_def ilog2.simps
      round_half_even_def Let_def)

lemma truediv_30_at_2: "truediv_30 (Suc (Suc 0)) = Fin (4803839602528529 / 2 ^ 56)"
  by (simp add: truediv_30_small round_quotient_def floor_log2_def ilog2.simps
      round_half_even_def Let_def)

lemmas truediv_30_evals = truediv_30_at_0 truediv_30_at_1 truediv_30_at_2

subsection \<open>Comprehensions, columns and rows\<close>

lemma ebind_Inr_iff: "ebind m f = Inr y \<longleftrightarrow> (\<exists>x. m = Inr x \<and> f x = Inr y)"
  by (cases m) (simp_all add: ebind_def)

lemma ebind_Inl_iff: "ebind m f = Inl e \<longleftrightarrow> m = Inl e \<or> (\<exists>x. m = Inr x \<and> f x = Inl e)"
  by (cases m) (simp_all add: ebind_def)

lemma emap_length: "emap f xs = Inr ys \<Longrightarrow> length ys = length xs"
  by (induction xs arbitrary: ys) (auto split: sum.splits)

lemma emap_nth: "emap f xs = Inr ys \<Longrightarrow> i < length xs \<Longrightarrow> f (xs ! i) = Inr (ys ! i)"
proof (induction xs arbitrary: ys i)
  case Nil
  then show ?case by simp
next
  case (Cons x xs)
  then show ?case by (cases i) (auto split: sum.splits)
qed

lemma emap_Inr_map: "emap f xs = Inr ys \<Longrightarrow> ys = map (\<lambda>x. projr (f x)) xs"
  by (induction xs arbitrary: ys) (auto split: sum.splits)

lemma emap_Inr_all: "emap f xs = Inr ys \<Longrightarrow> x \<in> set xs \<Longrightarrow> \<exists>y. f x = Inr y"
  by (induction xs arbitrary: ys) (auto split: sum.splits)

lemma emap_all_Inr: "\<forall>x \<in> set xs. \<exists>y. f x = Inr y \<Longrightarrow> emap f xs = Inr (map (\<lambda>x. projr (f x)) xs)"
  by (induction xs) (auto split: sum.splits)

lemma emap_cong_set: "(\<And>x. x \<in> set xs \<Longrightarrow> f x = g x) \<Longrightarrow> emap f xs = emap g xs"
  by (induction xs) (auto split: sum.splits)

lemma emap_append:
  "emap f (xs @ ys) =
     (case emap f xs of Inl e \<Rightarrow> Inl e
      | Inr us \<Rightarrow> (case emap f ys of Inl e \<Rightarrow> Inl e | Inr vs \<Rightarrow> Inr (us @ vs)))"
  by (induction xs) (auto split: sum.splits)

lemma columns_of_map:
  "columns_of names (map (\<lambda>row. map (g row) names) rows) =
     map (\<lambda>n. (n, map (\<lambda>row. g row n) rows)) names"
proof (induction names)
  case Nil
  then show ?case by simp
next
  case (Cons n ns)
  have "map tl (map (\<lambda>row. map (g row) (n # ns)) rows) = map (\<lambda>row. map (g row) ns) rows"
    by simp
  with Cons show ?case by (simp add: comp_def)
qed

lemma to_columns_Inr:
  assumes "to_columns E schema all_rows = Inr columns"
  shows "columns =
           map (\<lambda>n. (n, map (\<lambda>row. projr (cell_value E row n)) all_rows)) (map fst schema)"
    and "\<And>row n. row \<in> set all_rows \<Longrightarrow> n \<in> fst ` set schema \<Longrightarrow> \<exists>c. cell_value E row n = Inr c"
proof -
  let ?names = "map fst schema"
  from assms obtain css where
    css: "emap (\<lambda>row. emap (cell_value E row) ?names) all_rows = Inr css" and
    cols: "columns = columns_of ?names css"
    by (auto simp: to_columns_def split: sum.splits)
  have inner: "emap (cell_value E row) ?names = Inr (map (\<lambda>n. projr (cell_value E row n)) ?names)"
    if "row \<in> set all_rows" for row
    using emap_Inr_all [OF css that] emap_Inr_map by blast
  have "css = map (\<lambda>row. projr (emap (cell_value E row) ?names)) all_rows"
    by (rule emap_Inr_map [OF css])
  also have "\<dots> = map (\<lambda>row. map (\<lambda>n. projr (cell_value E row n)) ?names) all_rows"
    using inner by simp
  finally show "columns =
      map (\<lambda>n. (n, map (\<lambda>row. projr (cell_value E row n)) all_rows)) (map fst schema)"
    using cols by (simp only: columns_of_map)
  show "\<exists>c. cell_value E row n = Inr c" if "row \<in> set all_rows" "n \<in> fst ` set schema" for row n
    using inner [OF that(1)] that(2) emap_Inr_all [of "cell_value E row" ?names _ n] by auto
qed

lemma map_of_named_columns:
  "n \<in> set names \<Longrightarrow> map_of (map (\<lambda>n. (n, h n)) names) n = Some (h n)"
  by (induction names) auto

text \<open>The column that the loop of lines 208 to 218 builds for a field.\<close>

lemma build_arrays_char:
  assumes "all_rows \<noteq> []" and "set schema \<subseteq> set schema0"
  shows "build_arrays E schema
           (map (\<lambda>n. (n, map (\<lambda>row. g row n) all_rows)) (map fst schema0)) =
         emap (\<lambda>(n, ty). case pa_array E (map (\<lambda>row. g row n) all_rows) ty of
                            Inl e \<Rightarrow> Inl e | Inr arr \<Rightarrow> Inr (n, arr)) schema"
  using assms(2)
proof (induction schema)
  case Nil
  then show ?case by simp
next
  case (Cons a schema)
  obtain n ty where a: "a = (n, ty)" by (cases a)
  with Cons.prems have "n \<in> set (map fst schema0)" by force
  then have m: "map_of (map (\<lambda>n. (n, map (\<lambda>row. g row n) all_rows)) (map fst schema0)) n =
      Some (map (\<lambda>row. g row n) all_rows)"
    by (rule map_of_named_columns)
  from assms(1) obtain r rs where rr: "all_rows = r # rs" by (cases all_rows) auto
  from Cons have IH: "build_arrays E schema
           (map (\<lambda>n. (n, map (\<lambda>row. g row n) all_rows)) (map fst schema0)) =
         emap (\<lambda>(n, ty). case pa_array E (map (\<lambda>row. g row n) all_rows) ty of
                            Inl e \<Rightarrow> Inl e | Inr arr \<Rightarrow> Inr (n, arr)) schema"
    by simp
  show ?case
    unfolding a build_arrays.simps m IH
    by (simp add: rr split: sum.splits)
qed


lemma map_of_dict_set: "map_of (dict_set d k v) = (map_of d)(k \<mapsto> v)"
  by (induction d) (auto simp: fun_eq_iff)

lemma copy_if_present_other:
  "copy_if_present src key field row = Inr row' \<Longrightarrow> k \<noteq> field \<Longrightarrow> map_of row' k = map_of row k"
  by (auto simp: copy_if_present_def ebind_Inr_iff map_of_dict_set split: if_splits)

lemma copy_if_present_dict:
  "copy_if_present (JDict d) key field row =
     Inr (case map_of d key of None \<Rightarrow> row | Some v \<Rightarrow> dict_set row field v)"
  by (auto simp: copy_if_present_def ebind_def split: option.splits)

lemma project_row_other:
  assumes "project_row ep_idx k frame = Inr row"
    and "key \<noteq> ''observation.state''" and "key \<noteq> ''observation.image''" and "key \<noteq> ''action''"
  shows "map_of row key =
           map_of [(''episode_index'', JInt ep_idx), (''frame_index'', JInt (int k)),
                   (''timestamp'', dict_get frame ''timestamp'' (JFloat (truediv_30 k))),
                   (''task_index'', JInt 0)] key"
proof -
  from assms(1) obtain r1 r2 where
    r1: "copy_if_present (dict_get frame ''observation'' (JDict [])) ''jointPositions''
           ''observation.state''
           [(''episode_index'', JInt ep_idx), (''frame_index'', JInt (int k)),
            (''timestamp'', dict_get frame ''timestamp'' (JFloat (truediv_30 k))),
            (''task_index'', JInt 0)] = Inr r1" and
    r2: "copy_if_present (dict_get frame ''observation'' (JDict [])) ''image''
           ''observation.image'' r1 = Inr r2" and
    r3: "map_of row key = map_of r2 key"
    using assms(4)
    by (auto simp: project_row_def Let_def ebind_Inr_iff map_of_dict_set
        dest: copy_if_present_other split: if_splits)
  from copy_if_present_other [OF r1 assms(2)] copy_if_present_other [OF r2 assms(3)] r3
  show ?thesis by simp
qed

lemma project_row_base:
  assumes "project_row ep_idx k frame = Inr row"
  shows "map_of row ''episode_index'' = Some (JInt ep_idx)"
    and "map_of row ''frame_index'' = Some (JInt (int k))"
    and "map_of row ''timestamp'' = Some (dict_get frame ''timestamp'' (JFloat (truediv_30 k)))"
    and "map_of row ''task_index'' = Some (JInt 0)"
  using project_row_other [OF assms] by simp_all

lemma convert_row_other:
  assumes "convert_row ep_idx k frame = Inr row"
    and "key \<noteq> ''observation.state''" and "key \<noteq> ''action''"
  shows "map_of row key =
           map_of [(''episode_index'', JInt ep_idx), (''frame_index'', JInt (int k)),
                   (''timestamp'', dict_get frame ''timestamp'' (JFloat (truediv_30 k)))] key"
proof -
  from assms(1) obtain r1 where
    r1: "copy_if_present (dict_get frame ''observation'' (JDict [])) ''jointPositions''
           ''observation.state''
           [(''episode_index'', JInt ep_idx), (''frame_index'', JInt (int k)),
            (''timestamp'', dict_get frame ''timestamp'' (JFloat (truediv_30 k)))] = Inr r1" and
    r2: "copy_if_present (dict_get frame ''action'' (JDict [])) ''jointPositions''
           ''action'' r1 = Inr row"
    by (auto simp: convert_row_def Let_def ebind_Inr_iff)
  from copy_if_present_other [OF r1 assms(2)] copy_if_present_other [OF r2 assms(3)]
  show ?thesis by simp
qed

lemma convert_row_base:
  assumes "convert_row ep_idx k frame = Inr row"
  shows "map_of row ''episode_index'' = Some (JInt ep_idx)"
    and "map_of row ''frame_index'' = Some (JInt (int k))"
    and "map_of row ''timestamp'' = Some (dict_get frame ''timestamp'' (JFloat (truediv_30 k)))"
    and "map_of row ''task_index'' = None"
  using convert_row_other [OF assms] by simp_all

lemma project_frames_length:
  "project_frames ep_idx k fs = Inr rows \<Longrightarrow> length rows = length fs"
  by (induction fs arbitrary: k rows) (auto split: sum.splits)

lemma project_frames_nth:
  "project_frames ep_idx k fs = Inr rows \<Longrightarrow> i < length fs \<Longrightarrow>
     project_row ep_idx (k + i) (fs ! i) = Inr (rows ! i)"
proof (induction fs arbitrary: k rows i)
  case Nil
  then show ?case by simp
next
  case (Cons f fs)
  from Cons.prems(1) obtain r rs where
    r: "project_row ep_idx k f = Inr r" and
    rs: "project_frames ep_idx (Suc k) fs = Inr rs" and
    rows: "rows = r # rs"
    by (auto split: sum.splits)
  show ?case
  proof (cases i)
    case 0
    with r rows show ?thesis by simp
  next
    case (Suc j)
    with Cons.prems(2) have "j < length fs" by simp
    from Cons.IH [OF rs this] Suc rows show ?thesis by simp
  qed
qed

lemma convert_frames_length:
  "convert_frames ep_idx k fs = Inr rows \<Longrightarrow> length rows = length fs"
  by (induction fs arbitrary: k rows) (auto split: sum.splits)

lemma convert_frames_nth:
  "convert_frames ep_idx k fs = Inr rows \<Longrightarrow> i < length fs \<Longrightarrow>
     convert_row ep_idx (k + i) (fs ! i) = Inr (rows ! i)"
proof (induction fs arbitrary: k rows i)
  case Nil
  then show ?case by simp
next
  case (Cons f fs)
  from Cons.prems(1) obtain r rs where
    r: "convert_row ep_idx k f = Inr r" and
    rs: "convert_frames ep_idx (Suc k) fs = Inr rs" and
    rows: "rows = r # rs"
    by (auto split: sum.splits)
  show ?case
  proof (cases i)
    case 0
    with r rows show ?thesis by simp
  next
    case (Suc j)
    with Cons.prems(2) have "j < length fs" by simp
    from Cons.IH [OF rs this] Suc rows show ?thesis by simp
  qed
qed

lemma upload_loop_Inr:
  assumes "upload_loop eps (rows0, metas0, tasks0) = Inr (rows, metas, tasks)"
  shows "rows = rows0 @ concat (map episode_rows eps)"
    and "metas = metas0 @ map episode_meta eps"
    and "\<forall>ep \<in> set eps. project_frames (episodeIndex ep) 0 (frames ep) = Inr (episode_rows ep)"
  using assms
proof (induction eps arbitrary: rows0 metas0 tasks0)
  case Nil
  {
    case 1 then show ?case by simp
  next
    case 2 then show ?case by simp
  next
    case 3 then show ?case by simp
  }
next
  case (Cons ep eps)
  {
    case 1
    then obtain tasks' rs where
      rs: "project_frames (episodeIndex ep) 0 (frames ep) = Inr rs" and
      rest: "upload_loop eps (rows0 @ rs, metas0 @ [episode_meta ep], tasks') = Inr (rows, metas, tasks)"
      by (auto split: sum.splits)
    from Cons.IH(1) [OF rest] rs show ?case by (simp add: episode_rows_def)
  next
    case 2
    then obtain tasks' rs where
      rest: "upload_loop eps (rows0 @ rs, metas0 @ [episode_meta ep], tasks') = Inr (rows, metas, tasks)"
      by (auto split: sum.splits)
    from Cons.IH(2) [OF rest] show ?case by simp
  next
    case 3
    then obtain tasks' rs where
      rs: "project_frames (episodeIndex ep) 0 (frames ep) = Inr rs" and
      rest: "upload_loop eps (rows0 @ rs, metas0 @ [episode_meta ep], tasks') = Inr (rows, metas, tasks)"
      by (auto split: sum.splits)
    from Cons.IH(3) [OF rest] rs show ?case by (simp add: episode_rows_def)
  }
qed

lemma length_concat_episode_rows:
  "\<forall>ep \<in> set eps. project_frames (episodeIndex ep) 0 (frames ep) = Inr (episode_rows ep) \<Longrightarrow>
   length (concat (map episode_rows eps)) = total_frames eps"
  by (induction eps) (auto simp: total_frames_def dest: project_frames_length)



section \<open>Timestamps\<close>

text \<open>Unfolding the projection on a concrete frame.\<close>

lemmas eval_simps =
  project_row_def convert_row_def copy_if_present_def ebind_def dict_get_def Let_def

text \<open>
  The table of directory mode is a function of the episodes alone: the dataset metadata
  of the request, its \<open>fps\<close> among them, does not reach it.
\<close>

lemma compile_bundle_table_metadata:
  "map_sum (\<lambda>e. e) parquet_table (compile_bundle E (request\<lparr>UploadRequest.metadata := m\<rparr>) repo_id) =
   map_sum (\<lambda>e. e) parquet_table (compile_bundle E request repo_id)"
  by (auto simp: compile_bundle_def make_info_def ebind_def split: sum.splits prod.splits)

text \<open>The projections return a row for every frame whose entries are dicts.\<close>

lemma well_formed_frame_dicts:
  assumes "well_formed_frame frame"
  shows "\<exists>obs action. dict_get frame ''observation'' (JDict []) = JDict obs
           \<and> dict_get frame ''action'' (JDict []) = JDict action"
  using assms
  by (auto simp: well_formed_frame_def dict_get_def split: option.splits json.splits)

lemma project_row_well_formed:
  assumes "well_formed_frame frame"
  shows "\<exists>row. project_row ep_idx k frame = Inr row"
proof -
  from well_formed_frame_dicts [OF assms] obtain obs action where
    "dict_get frame ''observation'' (JDict []) = JDict obs"
    "dict_get frame ''action'' (JDict []) = JDict action"
    by blast
  then show ?thesis
    by (simp add: project_row_def Let_def copy_if_present_dict ebind_def split: option.splits)
qed

lemma convert_row_well_formed:
  assumes "well_formed_frame frame"
  shows "\<exists>row. convert_row ep_idx k frame = Inr row"
proof -
  from well_formed_frame_dicts [OF assms] obtain obs action where
    "dict_get frame ''observation'' (JDict []) = JDict obs"
    "dict_get frame ''action'' (JDict []) = JDict action"
    by blast
  then show ?thesis
    by (simp add: convert_row_def Let_def copy_if_present_dict ebind_def)
qed

lemma project_frames_well_formed:
  "list_all well_formed_frame fs \<Longrightarrow> \<exists>rows. project_frames ep_idx k fs = Inr rows"
proof (induction fs arbitrary: k)
  case Nil
  then show ?case by simp
next
  case (Cons f fs)
  from Cons.prems project_row_well_formed [of f ep_idx k] obtain row where
    "project_row ep_idx k f = Inr row" by auto
  moreover from Cons.prems Cons.IH [of "Suc k"] obtain rows where
    "project_frames ep_idx (Suc k) fs = Inr rows" by auto
  ultimately show ?case by simp
qed

lemma convert_frames_well_formed:
  "list_all well_formed_frame fs \<Longrightarrow> \<exists>rows. convert_frames ep_idx k fs = Inr rows"
proof (induction fs arbitrary: k)
  case Nil
  then show ?case by simp
next
  case (Cons f fs)
  from Cons.prems convert_row_well_formed [of f ep_idx k] obtain row where
    "convert_row ep_idx k f = Inr row" by auto
  moreover from Cons.prems Cons.IH [of "Suc k"] obtain rows where
    "convert_frames ep_idx (Suc k) fs = Inr rows" by auto
  ultimately show ?case by simp
qed

lemma convert_loop_well_formed:
  "list_all (\<lambda>ep. list_all well_formed_frame (frames ep)) eps \<Longrightarrow>
     \<exists>all_rows. convert_loop eps acc = Inr all_rows"
proof (induction eps arbitrary: acc)
  case Nil
  then show ?case by simp
next
  case (Cons ep eps)
  from Cons.prems convert_frames_well_formed [of "frames ep" "episodeIndex ep" 0] obtain rows where
    "convert_frames (episodeIndex ep) 0 (frames ep) = Inr rows" by auto
  moreover from Cons.prems Cons.IH [of "acc @ rows"] obtain all_rows where
    "convert_loop eps (acc @ rows) = Inr all_rows" by auto
  ultimately show ?case by simp
qed

text \<open>The timestamp of a projected row, in either mode.\<close>

lemma projected_timestamp:
  assumes "project_frames ep_idx 0 fs = Inr rows \<or> convert_frames ep_idx 0 fs = Inr rows"
    and "k < length fs"
  shows "length rows = length fs"
    and "map_of (rows ! k) ''timestamp'' =
           Some (case map_of (fs ! k) ''timestamp'' of
                   None \<Rightarrow> JFloat (truediv_30 k)
                 | Some t \<Rightarrow> t)"
proof -
  show "length rows = length fs"
    using assms(1) project_frames_length convert_frames_length by blast
  show "map_of (rows ! k) ''timestamp'' =
           Some (case map_of (fs ! k) ''timestamp'' of
                   None \<Rightarrow> JFloat (truediv_30 k)
                 | Some t \<Rightarrow> t)"
    using assms(1)
  proof
    assume "project_frames ep_idx 0 fs = Inr rows"
    from project_frames_nth [OF this assms(2)]
    have "project_row ep_idx k (fs ! k) = Inr (rows ! k)" by simp
    from project_row_base(3) [OF this] show ?thesis
      by (simp add: dict_get_def)
  next
    assume "convert_frames ep_idx 0 fs = Inr rows"
    from convert_frames_nth [OF this assms(2)]
    have "convert_row ep_idx k (fs ! k) = Inr (rows ! k)" by simp
    from convert_row_base(3) [OF this] show ?thesis
      by (simp add: dict_get_def)
  qed
qed

text \<open>
  C5. Both modes project a row for every frame of an episode whose frames have dicts
  (or nothing) under \<open>observation\<close> and \<open>action\<close>. Whenever a mode projects the
  frames of an episode, it gives one row for each frame, and the row of the frame at
  position \<open>k\<close> (from 0) has the timestamp \<^verbatim>\<open>k / 30.0\<close> when the frame has no
  \<^verbatim>\<open>timestamp\<close> entry, and the frame's own value when it has one. \<^verbatim>\<open>k / 30.0\<close> is a
  64-bit float: for \<open>k\<close> up to \<open>2\<^sup>5\<^sup>3\<close> the one nearest to the thirtieth of \<open>k\<close>.
  The projection takes the episode index, the position and the frame, so no \<open>fps\<close> is in
  its reach: buffer mode receives no metadata at all, and in directory mode another
  metadata record with the same episodes gives the same table, or the same exception.
\<close>

theorem timestamp_default:
  "(list_all well_formed_frame fs \<longrightarrow>
      (\<exists>rows. project_frames ep_idx 0 fs = Inr rows)
    \<and> (\<exists>rows. convert_frames ep_idx 0 fs = Inr rows))
 \<and> (\<forall>rows k.
      (project_frames ep_idx 0 fs = Inr rows \<or> convert_frames ep_idx 0 fs = Inr rows)
      \<and> k < length fs \<longrightarrow>
        length rows = length fs
      \<and> map_of (rows ! k) ''timestamp'' =
          Some (case map_of (fs ! k) ''timestamp'' of
                  None \<Rightarrow> JFloat (truediv_30 k)
                | Some t \<Rightarrow> t))
 \<and> (\<forall>k \<le> 2 ^ 53. truediv_30 k = round_quotient k 30)
 \<and> map_sum (\<lambda>e. e) parquet_table
       (compile_bundle E (request\<lparr>UploadRequest.metadata := m\<rparr>) repo_id) =
     map_sum (\<lambda>e. e) parquet_table (compile_bundle E request repo_id)"
proof (intro conjI impI allI)
  assume "list_all well_formed_frame fs"
  then show "\<exists>rows. project_frames ep_idx 0 fs = Inr rows"
    and "\<exists>rows. convert_frames ep_idx 0 fs = Inr rows"
    by (rule project_frames_well_formed, rule convert_frames_well_formed)
next
  fix rows k
  assume "(project_frames ep_idx 0 fs = Inr rows \<or> convert_frames ep_idx 0 fs = Inr rows)
      \<and> k < length fs"
  then have *: "project_frames ep_idx 0 fs = Inr rows \<or> convert_frames ep_idx 0 fs = Inr rows"
    "k < length fs" by simp_all
  show "length rows = length fs"
    by (rule projected_timestamp(1) [OF *])
  show "map_of (rows ! k) ''timestamp'' =
          Some (case map_of (fs ! k) ''timestamp'' of
                  None \<Rightarrow> JFloat (truediv_30 k)
                | Some t \<Rightarrow> t)"
    by (rule projected_timestamp(2) [OF *])
next
  fix k :: nat
  assume "k \<le> 2 ^ 53"
  then show "truediv_30 k = round_quotient k 30" by (rule truediv_30_small)
next
  show "map_sum (\<lambda>e. e) parquet_table
       (compile_bundle E (request\<lparr>UploadRequest.metadata := m\<rparr>) repo_id) =
     map_sum (\<lambda>e. e) parquet_table (compile_bundle E request repo_id)"
    by (rule compile_bundle_table_metadata)
qed

theorem timestamp_default_witness:
  "list_all well_formed_frame clock_frames
   \<and> project_frames 7 0 clock_frames =
       Inr [[(''episode_index'', JInt 7), (''frame_index'', JInt 0),
             (''timestamp'', JFloat (Fin 0)), (''task_index'', JInt 0)],
            [(''episode_index'', JInt 7), (''frame_index'', JInt 1),
             (''timestamp'', JFloat (Fin (4803839602528529 / 2 ^ 57))), (''task_index'', JInt 0)],
            [(''episode_index'', JInt 7), (''frame_index'', JInt 2),
             (''timestamp'', JFloat (Fin (4803839602528529 / 2 ^ 56))), (''task_index'', JInt 0)],
            [(''episode_index'', JInt 7), (''frame_index'', JInt 3),
             (''timestamp'', JStr ''noon''), (''task_index'', JInt 0)]]
   \<and> convert_frames 7 0 clock_frames =
       Inr [[(''episode_index'', JInt 7), (''frame_index'', JInt 0),
             (''timestamp'', JFloat (Fin 0))],
            [(''episode_index'', JInt 7), (''frame_index'', JInt 1),
             (''timestamp'', JFloat (Fin (4803839602528529 / 2 ^ 57)))],
            [(''episode_index'', JInt 7), (''frame_index'', JInt 2),
             (''timestamp'', JFloat (Fin (4803839602528529 / 2 ^ 56)))],
            [(''episode_index'', JInt 7), (''frame_index'', JInt 3),
             (''timestamp'', JStr ''noon'')]]
   \<and> map (\<lambda>frame. map_of frame ''timestamp'') clock_frames =
       [None, None, None, Some (JStr ''noon'')]
   \<and> map truediv_30 [0, 1, 2] =
       [Fin 0, Fin (4803839602528529 / 2 ^ 57), Fin (4803839602528529 / 2 ^ 56)]
   \<and> map (\<lambda>k. round_quotient k 30) [0, 1, 2] = map truediv_30 [0, 1, 2]"
proof -
  have wf: "list_all well_formed_frame clock_frames"
    by (simp add: clock_frames_def well_formed_frame_def)
  have p: "project_frames 7 0 clock_frames =
       Inr [[(''episode_index'', JInt 7), (''frame_index'', JInt 0),
             (''timestamp'', JFloat (Fin 0)), (''task_index'', JInt 0)],
            [(''episode_index'', JInt 7), (''frame_index'', JInt 1),
             (''timestamp'', JFloat (Fin (4803839602528529 / 2 ^ 57))), (''task_index'', JInt 0)],
            [(''episode_index'', JInt 7), (''frame_index'', JInt 2),
             (''timestamp'', JFloat (Fin (4803839602528529 / 2 ^ 56))), (''task_index'', JInt 0)],
            [(''episode_index'', JInt 7), (''frame_index'', JInt 3),
             (''timestamp'', JStr ''noon''), (''task_index'', JInt 0)]]"
    by (simp add: clock_frames_def eval_simps truediv_30_evals)
  have c: "convert_frames 7 0 clock_frames =
       Inr [[(''episode_index'', JInt 7), (''frame_index'', JInt 0),
             (''timestamp'', JFloat (Fin 0))],
            [(''episode_index'', JInt 7), (''frame_index'', JInt 1),
             (''timestamp'', JFloat (Fin (4803839602528529 / 2 ^ 57)))],
            [(''episode_index'', JInt 7), (''frame_index'', JInt 2),
             (''timestamp'', JFloat (Fin (4803839602528529 / 2 ^ 56)))],
            [(''episode_index'', JInt 7), (''frame_index'', JInt 3),
             (''timestamp'', JStr ''noon'')]]"
    by (simp add: clock_frames_def eval_simps truediv_30_evals)
  have ts: "map (\<lambda>frame. map_of frame ''timestamp'') clock_frames =
       [None, None, None, Some (JStr ''noon'')]"
    by (simp add: clock_frames_def)
  have vals: "map truediv_30 [0, 1, 2] =
       [Fin 0, Fin (4803839602528529 / 2 ^ 57), Fin (4803839602528529 / 2 ^ 56)]"
    using truediv_30_evals by (simp add: numeral_2_eq_2)
  note default = timestamp_default [where fs = clock_frames and ep_idx = 7 and E = sample_env
      and request = cube_request and m = "UploadRequest.metadata cube_request"
      and repo_id = "''alice/cubes''"]
  from default wf have "\<exists>rows. convert_frames 7 0 clock_frames = Inr rows"
    by blast
  moreover have "(1::nat) < length clock_frames" by (simp add: clock_frames_def)
  with default c have "map_of (projr (convert_frames 7 0 clock_frames) ! 1) ''timestamp'' =
      Some (case map_of (clock_frames ! 1) ''timestamp'' of
              None \<Rightarrow> JFloat (truediv_30 1)
            | Some t \<Rightarrow> t)"
    by (simp only: sum.sel) blast
  moreover from default have "\<forall>k \<le> 2 ^ 53. truediv_30 k = round_quotient k 30"
    by blast
  then have "map (\<lambda>k. round_quotient k 30) [0, 1, 2] = map truediv_30 [0, 1, 2]"
    by simp
  ultimately show ?thesis
    using wf p c ts vals by (simp only: simp_thms)
qed

section \<open>The table of directory mode\<close>

lemma pa_array_Inr:
  assumes "pa_array E vals ty = Inr arr"
  shows "arr = Arr ty (map (\<lambda>v. projr (pa_value E ty v)) vals)"
    and "length (cells arr) = length vals"
    and "\<And>v. v \<in> set vals \<Longrightarrow> \<exists>c. pa_value E ty v = Inr c"
proof -
  from assms obtain cs where cs: "emap (pa_value E ty) vals = Inr cs" and arr: "arr = Arr ty cs"
    by (auto simp: pa_array_def split: sum.splits)
  from emap_Inr_map [OF cs] arr show "arr = Arr ty (map (\<lambda>v. projr (pa_value E ty v)) vals)"
    by simp
  then show "length (cells arr) = length vals" by simp
  show "\<exists>c. pa_value E ty v = Inr c" if "v \<in> set vals" for v
    using emap_Inr_all [OF cs that] .
qed

lemma named_arrays_Inr:
  assumes "emap (\<lambda>(n, ty). case pa_array E (col n) ty of
                             Inl e \<Rightarrow> Inl e | Inr arr \<Rightarrow> Inr (n, arr)) schema = Inr t"
  shows "list_all2 (\<lambda>(n, ty) (n', arr). n' = n \<and> pa_array E (col n) ty = Inr arr) schema t"
  using assms
proof (induction schema arbitrary: t)
  case Nil
  then show ?case by simp
next
  case (Cons a schema)
  obtain n ty where a: "a = (n, ty)" by (cases a)
  from Cons.prems obtain arr t' where
    "pa_array E (col n) ty = Inr arr" and
    "emap (\<lambda>(n, ty). case pa_array E (col n) ty of
                       Inl e \<Rightarrow> Inl e | Inr arr \<Rightarrow> Inr (n, arr)) schema = Inr t'" and
    "t = (n, arr) # t'"
    by (auto simp: a split: sum.splits)
  with Cons.IH show ?case by (simp add: a)
qed

lemma schema_fields_Inr:
  assumes "schema_fields sample_row = Inr schema"
  obtains state action where
    "vector_field sample_row ''observation.state'' = Inr state"
    "vector_field sample_row ''action'' = Inr action"
    "schema = [(''episode_index'', Pa_int64), (''frame_index'', Pa_int64),
               (''timestamp'', Pa_float64), (''task_index'', Pa_int64)] @ state @ action"
  using assms by (auto simp: schema_fields_def ebind_Inr_iff)

lemma vector_field_cases:
  assumes "vector_field sample_row name = Inr fs"
  shows "(map_of sample_row name = None \<and> fs = []) \<or>
         (\<exists>v dim. map_of sample_row name = Some v \<and> py_len v = Inr dim \<and>
            fs = [(name, Pa_fixed_list Pa_float32 dim)])"
  using assms by (auto simp: vector_field_def ebind_Inr_iff split: option.splits)

lemma make_table_Inr:
  assumes "make_table E (r # rs) = Inr t"
  obtains schema where
    "schema_fields r = Inr schema"
    "list_all2 (\<lambda>(n, ty) (n', arr). n' = n \<and> pa_array E (field_column E (r # rs) n) ty = Inr arr)
       schema t"
    "\<And>row n. row \<in> set (r # rs) \<Longrightarrow> n \<in> fst ` set schema \<Longrightarrow> \<exists>c. cell_value E row n = Inr c"
proof -
  from assms obtain schema columns where
    schema: "schema_fields r = Inr schema" and
    columns: "to_columns E schema (r # rs) = Inr columns" and
    arrays: "build_arrays E schema columns = Inr t"
    by (auto simp: make_table_def ebind_Inr_iff)
  have cols: "columns = map (\<lambda>n. (n, field_column E (r # rs) n)) (map fst schema)"
    using to_columns_Inr(1) [OF columns] by (simp add: field_column_def)
  have em: "emap (\<lambda>(n, ty). case pa_array E (field_column E (r # rs) n) ty of
                           Inl e \<Rightarrow> Inl e | Inr arr \<Rightarrow> Inr (n, arr)) schema = Inr t"
    using arrays build_arrays_char [of "r # rs" schema schema E "\<lambda>row n. projr (cell_value E row n)"]
    by (simp add: cols field_column_def)
  show ?thesis
  proof (rule that)
    show "schema_fields r = Inr schema" by (rule schema)
    show "list_all2 (\<lambda>(n, ty) (n', arr). n' = n \<and> pa_array E (field_column E (r # rs) n) ty = Inr arr)
       schema t"
      by (rule named_arrays_Inr [OF em])
    show "\<exists>c. cell_value E row n = Inr c" if "row \<in> set (r # rs)" "n \<in> fst ` set schema" for row n
      using to_columns_Inr(2) [OF columns that] .
  qed
qed

section \<open>The scenario of the specification, evaluated\<close>

lemma cube_loop:
  "upload_loop (episodes cube_request) ([], [], []) =
     Inr (cube_rows, episodes_jsonl cube_bundle, [JStr ''pick up the cube''])"
  by (simp add: cube_request_def cube_episode_def cube_frame_def eval_simps truediv_30_evals
      episode_task_def episode_meta_def set_add_def cube_rows_def cube_bundle_def)

lemma cube_make_table: "make_table sample_env cube_rows = Inr cube_table"
  by (simp add: cube_rows_def make_table_def schema_fields_def vector_field_def ebind_def
      to_columns_def cell_value_def sample_env_def pa_array_def pa_value_def pa_scalar_def
      cube_table_def eval_nat_numeral)

lemma cube_make_info: "make_info cube_request cube_rows = Inr (info_json cube_bundle)"
  by (simp add: cube_rows_def make_info_def feature_shape_def dict_get_def ebind_def
      total_frames_def cube_request_def cube_episode_def cube_bundle_def str_nat.simps)

lemma cube_compiles: "compile_bundle sample_env cube_request ''alice/cubes'' = Inr cube_bundle"
proof -
  have "cube_rows \<noteq> []" by (simp add: cube_rows_def)
  moreover have "write_table sample_env cube_table = Inr [0x50, 0x41, 0x52, 0x31, 0x06]"
    by (simp add: sample_env_def cube_table_def)
  ultimately show ?thesis
    unfolding compile_bundle_def cube_loop
    by (simp add: ebind_def cube_make_table cube_make_info)
      (simp add: cube_bundle_def sample_env_def make_readme_def cube_request_def
        total_frames_def cube_episode_def cube_table_def)
qed

section \<open>Counts\<close>

text \<open>A bundle handed to the archival service is the result of the compile step.\<close>

lemma uploaded_is_compiled:
  "Upload_folder repo_id b \<in> set (fst (upload_dataset E request)) \<Longrightarrow>
     compile_bundle E request repo_id = Inr b"
  by (auto simp: upload_dataset_def Let_def split: sum.splits)

lemma compile_bundle_Inr:
  assumes "compile_bundle E request repo_id = Inr b"
  shows "\<exists>all_rows tasks.
           upload_loop (episodes request) ([], [], []) = Inr (all_rows, episodes_jsonl b, tasks)
         \<and> (all_rows = [] \<longrightarrow> parquet_table b = None \<and> parquet_file b = None)
         \<and> (all_rows \<noteq> [] \<longrightarrow>
              (\<exists>t. make_table E all_rows = Inr t \<and> parquet_table b = Some t
                 \<and> (\<exists>file. write_table E t = Inr file \<and> parquet_file b = Some file)))
         \<and> make_info request all_rows = Inr (info_json b)
         \<and> tasks_jsonl b = task_lines 0 (set_iter E tasks)"
proof -
  from assms obtain all_rows metas tasks table written info where
    loop: "upload_loop (episodes request) ([], [], []) = Inr (all_rows, metas, tasks)" and
    table: "(if all_rows \<noteq> []
             then ebind (make_table E all_rows) (\<lambda>table.
                  ebind (write_table E table) (\<lambda>file. Inr (Some table, Some file)))
             else Inr (None, None)) = Inr (table, written)" and
    info: "make_info request all_rows = Inr info" and
    b: "b = \<lparr>parquet_table = table, parquet_file = written,
             info_json = info, episodes_jsonl = metas,
             tasks_jsonl = task_lines 0 (set_iter E tasks),
             readme_md = make_readme request repo_id\<rparr>"
    by (auto simp: compile_bundle_def ebind_Inr_iff)
  have "all_rows \<noteq> [] \<longrightarrow>
      (\<exists>t. make_table E all_rows = Inr t \<and> parquet_table b = Some t
         \<and> (\<exists>file. write_table E t = Inr file \<and> parquet_file b = Some file))"
    using table b by (auto simp: ebind_Inr_iff split: if_splits)
  moreover have "all_rows = [] \<longrightarrow> parquet_table b = None \<and> parquet_file b = None"
    using table b by (auto split: if_splits)
  ultimately show ?thesis
    using loop info b by auto
qed

lemma make_info_counts:
  assumes "make_info request all_rows = Inr info"
  shows "map_of info ''total_episodes'' = Some (JInt (int (length (episodes request))))"
    and "map_of info ''total_frames'' = Some (JInt (int (total_frames (episodes request))))"
  using assms by (auto simp: make_info_def ebind_Inr_iff)

lemma upload_loop_length:
  assumes "upload_loop eps ([], [], []) = Inr (rows, metas, tasks)"
  shows "length rows = total_frames eps"
  using upload_loop_Inr(1,3) [OF assms] length_concat_episode_rows by simp

lemma make_table_columns:
  assumes "make_table E (r # rs) = Inr t"
  shows "t \<noteq> []" and "\<forall>c \<in> set t. length (cells (snd c)) = length (r # rs)"
proof -
  from assms obtain schema where
    schema: "schema_fields r = Inr schema" and
    arrays: "list_all2 (\<lambda>(n, ty) (n', arr). n' = n \<and>
               pa_array E (field_column E (r # rs) n) ty = Inr arr) schema t"
    by (rule make_table_Inr)
  from schema have "schema \<noteq> []" by (rule schema_fields_Inr) simp
  with arrays show "t \<noteq> []" by auto
  show "\<forall>c \<in> set t. length (cells (snd c)) = length (r # rs)"
  proof
    fix c assume "c \<in> set t"
    then obtain i where i: "i < length t" "t ! i = c" by (auto simp: in_set_conv_nth)
    with arrays have "(\<lambda>(n, ty) (n', arr). n' = n \<and>
        pa_array E (field_column E (r # rs) n) ty = Inr arr) (schema ! i) c"
      by (auto dest: list_all2_nthD2)
    then obtain n ty where "pa_array E (field_column E (r # rs) n) ty = Inr (snd c)"
      by (cases "schema ! i"; cases c) auto
    from pa_array_Inr(2) [OF this] show "length (cells (snd c)) = length (r # rs)"
      by (simp add: field_column_def)
  qed
qed

text \<open>
  C1. When directory mode compiles a batch that has at least one frame, the bundle it
  hands to the archival service has a table, every column of the table has one cell for
  each frame of the batch (the sum of \<^verbatim>\<open>len(frames)\<close> over the episodes), \<^verbatim>\<open>total_frames\<close> of
  \<^verbatim>\<open>info.json\<close> is that sum, \<^verbatim>\<open>total_episodes\<close> is the number of episodes, and the lines of
  \<^verbatim>\<open>episodes.jsonl\<close> carry, episode by episode, the number of frames of the episode.
\<close>

theorem frame_counts_agree:
  assumes "Upload_folder repo_id b \<in> set (fst (upload_dataset E request))"
    and "0 < total_frames (episodes request)"
  shows "\<exists>t. parquet_table b = Some t
           \<and> table_num_rows t = total_frames (episodes request)
           \<and> (\<forall>c \<in> set t. length (cells (snd c)) = total_frames (episodes request))
           \<and> map_of (info_json b) ''total_frames'' =
               Some (JInt (int (total_frames (episodes request))))
           \<and> map_of (info_json b) ''total_episodes'' =
               Some (JInt (int (length (episodes request))))
           \<and> map (\<lambda>m. map_of m ''length'') (episodes_jsonl b) =
               map (\<lambda>ep. Some (JInt (int (length (frames ep))))) (episodes request)
           \<and> total_frames (episodes request) =
               sum_list (map (\<lambda>ep. length (frames ep)) (episodes request))"
proof -
  from uploaded_is_compiled [OF assms(1)] obtain all_rows tasks where
    loop: "upload_loop (episodes request) ([], [], []) = Inr (all_rows, episodes_jsonl b, tasks)" and
    table: "all_rows \<noteq> [] \<Longrightarrow> \<exists>t. make_table E all_rows = Inr t \<and> parquet_table b = Some t" and
    info: "make_info request all_rows = Inr (info_json b)"
    using compile_bundle_Inr by blast
  have len: "length all_rows = total_frames (episodes request)"
    by (rule upload_loop_length [OF loop])
  with assms(2) obtain r rs where rows: "all_rows = r # rs" by (cases all_rows) auto
  with table obtain t where t: "make_table E (r # rs) = Inr t" "parquet_table b = Some t"
    by auto
  have cols: "\<forall>c \<in> set t. length (cells (snd c)) = total_frames (episodes request)"
    using make_table_columns(2) [OF t(1)] len rows by simp
  have "table_num_rows t = total_frames (episodes request)"
    using make_table_columns(1) [OF t(1)] cols
    by (cases t) (auto simp: table_num_rows_def)
  moreover have "map (\<lambda>m. map_of m ''length'') (episodes_jsonl b) =
      map (\<lambda>ep. Some (JInt (int (length (frames ep))))) (episodes request)"
    using upload_loop_Inr(2) [OF loop] by (simp add: episode_meta_def)
  ultimately show ?thesis
    using t(2) cols make_info_counts [OF info] by (simp add: total_frames_def)
qed

theorem frame_counts_agree_witness:
  "Upload_folder ''alice/cubes'' cube_bundle \<in> set (fst (upload_dataset sample_env cube_request))
   \<and> 0 < total_frames (episodes cube_request)
   \<and> parquet_table cube_bundle = Some cube_table
   \<and> table_num_rows cube_table = 3
   \<and> map_of (info_json cube_bundle) ''total_frames'' = Some (JInt 3)
   \<and> map_of (info_json cube_bundle) ''total_episodes'' = Some (JInt 1)
   \<and> map (\<lambda>m. map_of m ''length'') (episodes_jsonl cube_bundle) = [Some (JInt 3)]"
proof -
  have up: "Upload_folder ''alice/cubes'' cube_bundle
      \<in> set (fst (upload_dataset sample_env cube_request))"
    using cube_compiles
    by (simp add: upload_dataset_def Let_def sample_env_def cube_request_def)
  have n: "0 < total_frames (episodes cube_request)"
    by (simp add: total_frames_def cube_request_def cube_episode_def)
  from frame_counts_agree [OF up n] up n show ?thesis
    by (simp add: total_frames_def cube_request_def cube_episode_def cube_bundle_def)
qed

section \<open>Task index\<close>

lemma upload_loop_frame_rows:
  assumes "upload_loop eps ([], [], []) = Inr (all_rows, episode_metadata, tasks)"
    and "ep \<in> set eps" and "k < length (frames ep)"
  shows "\<exists>row \<in> set all_rows. project_row (episodeIndex ep) k (frames ep ! k) = Inr row"
proof -
  from upload_loop_Inr(3) [OF assms(1)] assms(2)
  have rs: "project_frames (episodeIndex ep) 0 (frames ep) = Inr (episode_rows ep)" by blast
  from project_frames_nth [OF rs assms(3)] project_frames_length [OF rs] assms(3)
  have "project_row (episodeIndex ep) k (frames ep ! k) = Inr (episode_rows ep ! k)"
    and "episode_rows ep ! k \<in> set (episode_rows ep)"
    by simp_all
  moreover have "set (episode_rows ep) \<subseteq> set all_rows"
    using upload_loop_Inr(1) [OF assms(1)] assms(2) by auto
  ultimately show ?thesis by blast
qed

lemma upload_loop_row_frames:
  assumes "upload_loop eps ([], [], []) = Inr (all_rows, episode_metadata, tasks)"
    and "row \<in> set all_rows"
  shows "\<exists>ep \<in> set eps. \<exists>k < length (frames ep).
           project_row (episodeIndex ep) k (frames ep ! k) = Inr row"
proof -
  from upload_loop_Inr(1) [OF assms(1)] assms(2) obtain ep where
    ep: "ep \<in> set eps" "row \<in> set (episode_rows ep)" by auto
  from upload_loop_Inr(3) [OF assms(1)] ep(1)
  have rs: "project_frames (episodeIndex ep) 0 (frames ep) = Inr (episode_rows ep)" by blast
  from ep(2) obtain k where k: "k < length (episode_rows ep)" "episode_rows ep ! k = row"
    by (auto simp: in_set_conv_nth)
  with project_frames_length [OF rs] project_frames_nth [OF rs, of k]
  have "k < length (frames ep)" "project_row (episodeIndex ep) k (frames ep ! k) = Inr row"
    by simp_all
  with ep(1) show ?thesis by blast
qed

text \<open>
  C7. In directory mode every projected row has \<open>task_index\<close> 0, and every frame of
  every episode has its row among them, whatever the tasks of the episodes are.
\<close>

theorem task_index_always_zero:
  assumes "upload_loop eps ([], [], []) = Inr (all_rows, episode_metadata, tasks)"
  shows "(\<forall>row \<in> set all_rows. map_of row ''task_index'' = Some (JInt 0))
       \<and> (\<forall>ep \<in> set eps. \<forall>k < length (frames ep).
            \<exists>row \<in> set all_rows.
              project_row (episodeIndex ep) k (frames ep ! k) = Inr row
              \<and> map_of row ''task_index'' = Some (JInt 0))"
proof -
  have zero: "map_of row ''task_index'' = Some (JInt 0)" if "row \<in> set all_rows" for row
    using upload_loop_row_frames [OF assms that] project_row_base(4) by blast
  then show ?thesis
    using upload_loop_frame_rows [OF assms] by blast
qed

theorem task_index_always_zero_witness:
  "upload_loop
     [\<lparr>episodeIndex = 0, frames = [[]], metadata = [(''languageInstruction'', JStr ''pick'')]\<rparr>,
      \<lparr>episodeIndex = 1, frames = [[]], metadata = [(''languageInstruction'', JStr ''place'')]\<rparr>]
     ([], [], []) =
   Inr ([[(''episode_index'', JInt 0), (''frame_index'', JInt 0),
          (''timestamp'', JFloat (Fin 0)), (''task_index'', JInt 0)],
         [(''episode_index'', JInt 1), (''frame_index'', JInt 0),
          (''timestamp'', JFloat (Fin 0)), (''task_index'', JInt 0)]],
        [[(''episode_index'', JInt 0), (''tasks'', JList [JStr ''pick'']), (''length'', JInt 1)],
         [(''episode_index'', JInt 1), (''tasks'', JList [JStr ''place'']), (''length'', JInt 1)]],
        [JStr ''pick'', JStr ''place''])
   \<and> list_all (\<lambda>row. map_of row ''task_index'' = Some (JInt 0))
        [[(''episode_index'', JInt 0), (''frame_index'', JInt 0),
          (''timestamp'', JFloat (Fin 0)), (''task_index'', JInt 0)],
         [(''episode_index'', JInt 1), (''frame_index'', JInt 0),
          (''timestamp'', JFloat (Fin 0)), (''task_index'', JInt 0)]]"
proof -
  have loop: "upload_loop
     [\<lparr>episodeIndex = 0, frames = [[]], metadata = [(''languageInstruction'', JStr ''pick'')]\<rparr>,
      \<lparr>episodeIndex = 1, frames = [[]], metadata = [(''languageInstruction'', JStr ''place'')]\<rparr>]
     ([], [], []) =
   Inr ([[(''episode_index'', JInt 0), (''frame_index'', JInt 0),
          (''timestamp'', JFloat (Fin 0)), (''task_index'', JInt 0)],
         [(''episode_index'', JInt 1), (''frame_index'', JInt 0),
          (''timestamp'', JFloat (Fin 0)), (''task_index'', JInt 0)]],
        [[(''episode_index'', JInt 0), (''tasks'', JList [JStr ''pick'']), (''length'', JInt 1)],
         [(''episode_index'', JInt 1), (''tasks'', JList [JStr ''place'']), (''length'', JInt 1)]],
        [JStr ''pick'', JStr ''place''])"
    by (simp add: eval_simps truediv_30_evals episode_task_def episode_meta_def set_add_def
        py_eq_def)
  from task_index_always_zero [OF loop] loop show ?thesis by simp
qed

text \<open>The encoded column: as many zeros as the table has rows.\<close>

lemma task_index_column_zero:
  assumes "make_table E (r # rs) = Inr t"
    and "\<forall>row \<in> set (r # rs). map_of row ''task_index'' = Some (JInt 0)"
  shows "map_of t ''task_index'' = Some (Arr Pa_int64 (replicate (length (r # rs)) (JInt 0)))"
proof -
  from assms(1) obtain schema where
    schema: "schema_fields r = Inr schema" and
    arrays: "list_all2 (\<lambda>(n, ty) (n', arr). n' = n \<and>
               pa_array E (field_column E (r # rs) n) ty = Inr arr) schema t"
    by (rule make_table_Inr)
  from schema obtain rest where
    "schema = [(''episode_index'', Pa_int64), (''frame_index'', Pa_int64),
               (''timestamp'', Pa_float64), (''task_index'', Pa_int64)] @ rest"
    by (rule schema_fields_Inr) simp
  with arrays obtain a0 a1 a2 arr t' where
    t: "t = (''episode_index'', a0) # (''frame_index'', a1) # (''timestamp'', a2)
            # (''task_index'', arr) # t'" and
    arr: "pa_array E (field_column E (r # rs) ''task_index'') Pa_int64 = Inr arr"
    by (auto simp: list_all2_Cons1)
  have col: "field_column E (r # rs) ''task_index'' = replicate (length (r # rs)) (JInt 0)"
    unfolding field_column_def using assms(2)
    by (intro replicate_eqI) (auto simp: cell_value_def)
  have "arr = Arr Pa_int64 (replicate (length (r # rs)) (JInt 0))"
    using pa_array_Inr(1) [OF arr] unfolding col
    by (simp add: pa_value_def pa_scalar_def)
  with t show ?thesis by simp
qed

section \<open>Action fallback\<close>

text \<open>
  Directory mode, for a frame whose \<open>action\<close> is a dict: the joint positions when
  present, else the target positions when present, else no \<open>action\<close> field.
\<close>

lemma project_row_action:
  assumes "project_row ep_idx k frame = Inr row" and "map_of frame ''action'' = Some (JDict a)"
  shows "map_of row ''action'' =
           (case map_of a ''jointPositions'' of
              Some v \<Rightarrow> Some v
            | None \<Rightarrow> map_of a ''targetPositions'')"
proof -
  let ?obs = "dict_get frame ''observation'' (JDict [])"
  let ?base = "[(''episode_index'', JInt ep_idx), (''frame_index'', JInt (int k)),
                (''timestamp'', dict_get frame ''timestamp'' (JFloat (truediv_30 k))),
                (''task_index'', JInt 0)]"
  from assms obtain r1 r2 where
    r1: "copy_if_present ?obs ''jointPositions'' ''observation.state'' ?base = Inr r1" and
    r2: "copy_if_present ?obs ''image'' ''observation.image'' r1 = Inr r2" and
    row: "row = (case map_of a ''jointPositions'' of
                   Some v \<Rightarrow> dict_set r2 ''action'' v
                 | None \<Rightarrow> (case map_of a ''targetPositions'' of
                               Some v \<Rightarrow> dict_set r2 ''action'' v | None \<Rightarrow> r2))"
    by (auto simp: project_row_def Let_def ebind_Inr_iff dict_get_def copy_if_present_dict
        split: if_splits option.splits)
  have "map_of r2 ''action'' = None"
    using copy_if_present_other [OF r1, of "''action''"]
      copy_if_present_other [OF r2, of "''action''"] by simp
  with row show ?thesis by (simp add: map_of_dict_set split: option.splits)
qed

text \<open>Buffer mode: the joint positions when present, else no \<open>action\<close> field.\<close>

lemma convert_row_action:
  assumes "convert_row ep_idx k frame = Inr row" and "map_of frame ''action'' = Some (JDict a)"
  shows "map_of row ''action'' = map_of a ''jointPositions''"
proof -
  let ?obs = "dict_get frame ''observation'' (JDict [])"
  let ?base = "[(''episode_index'', JInt ep_idx), (''frame_index'', JInt (int k)),
                (''timestamp'', dict_get frame ''timestamp'' (JFloat (truediv_30 k)))]"
  from assms obtain r1 where
    r1: "copy_if_present ?obs ''jointPositions'' ''observation.state'' ?base = Inr r1" and
    row: "row = (case map_of a ''jointPositions'' of
                   Some v \<Rightarrow> dict_set r1 ''action'' v | None \<Rightarrow> r1)"
    by (auto simp: convert_row_def Let_def ebind_Inr_iff dict_get_def copy_if_present_dict
        split: if_splits option.splits)
  have "map_of r1 ''action'' = None"
    using copy_if_present_other [OF r1, of "''action''"] by simp
  with row show ?thesis by (simp add: map_of_dict_set split: option.splits)
qed

text \<open>
  C4. A frame whose action holds target positions only: directory mode projects them
  as the \<open>action\<close> field, buffer mode projects no \<open>action\<close> field, and its table has
  no \<open>action\<close> column.
\<close>

theorem target_positions_dropped_by_convert:
  "project_row 0 0 [(''action'', JDict [(''targetPositions'', JList [JFloat (Fin 1)])])] =
     Inr [(''episode_index'', JInt 0), (''frame_index'', JInt 0),
          (''timestamp'', JFloat (Fin 0)), (''task_index'', JInt 0),
          (''action'', JList [JFloat (Fin 1)])]
   \<and> convert_row 0 0 [(''action'', JDict [(''targetPositions'', JList [JFloat (Fin 1)])])] =
     Inr [(''episode_index'', JInt 0), (''frame_index'', JInt 0),
          (''timestamp'', JFloat (Fin 0))]
   \<and> map_sum (\<lambda>e. e) column_names
       (convert_table sample_env
          [[(''episode_index'', JInt 0), (''frame_index'', JInt 0),
            (''timestamp'', JFloat (Fin 0))]]) =
     Inr [''episode_index'', ''frame_index'', ''timestamp'']"
  by (simp add: eval_simps truediv_30_evals convert_table_def convert_columns_def
      required_column_def optional_column_def pa_table_def sample_env_def pa_array_def
      pa_value_def pa_scalar_def column_names_def)

section \<open>The responses of buffer mode\<close>

lemma convert_loop_Inr:
  "convert_loop eps acc = Inr all_rows \<Longrightarrow> length all_rows = length acc + total_frames eps"
proof (induction eps arbitrary: acc)
  case Nil
  then show ?case by (simp add: total_frames_def)
next
  case (Cons ep eps)
  from Cons.prems obtain rs where
    rs: "convert_frames (episodeIndex ep) 0 (frames ep) = Inr rs" and
    rest: "convert_loop eps (acc @ rs) = Inr all_rows"
    by (auto split: sum.splits)
  from Cons.IH [OF rest] convert_frames_length [OF rs] show ?case
    by (simp add: total_frames_def)
qed

lemma convert_loop_no_frames:
  "total_frames eps = 0 \<Longrightarrow> convert_loop eps acc = Inr acc"
  by (induction eps arbitrary: acc) (auto simp: total_frames_def)

text \<open>Whatever fails in buffer mode, the caller sees status 500.\<close>

lemma convert_failures_are_500:
  "convert_to_parquet E eps = Inl e \<Longrightarrow> \<exists>cause. e = HTTPException 500 (Str cause)"
  by (auto simp: convert_to_parquet_def split: sum.splits)

text \<open>
  C6. A batch with no frame: the handler raises \<^verbatim>\<open>HTTPException(status_code=400)\<close>, its own
  \<^verbatim>\<open>except Exception\<close> catches it, and the caller gets status 500, the status of every other
  failure, with the 400 only inside the detail text.
\<close>

theorem empty_batch_is_status_500:
  assumes "total_frames eps = 0"
  shows "convert_to_parquet E eps =
           Inl (HTTPException 500 (Str (HTTPException 400 (Text ''No frames to convert''))))"
  using convert_loop_no_frames [OF assms, of "[]"]
  by (simp add: convert_to_parquet_def convert_body_def ebind_def)

theorem empty_batch_is_status_500_witness:
  "total_frames [\<lparr>episodeIndex = 3, frames = [], metadata = []\<rparr>] = 0
   \<and> convert_to_parquet sample_env [\<lparr>episodeIndex = 3, frames = [], metadata = []\<rparr>] =
       Inl (HTTPException 500 (Str (HTTPException 400 (Text ''No frames to convert''))))"
proof -
  have "total_frames [\<lparr>episodeIndex = 3, frames = [], metadata = []\<rparr>] = 0"
    by (simp add: total_frames_def)
  from empty_batch_is_status_500 [OF this] this show ?thesis by simp
qed

text \<open>The sibling handler lets an \<open>HTTPException\<close> through with its own status.\<close>

lemma reraise_keeps_status: "reraise (HTTPException status d) = HTTPException status d"
  by simp

lemma hex_byte_digits: "set (hex_byte b) \<subseteq> set ''0123456789abcdef''"
proof -
  have "unat b < 2 ^ LENGTH(8)" by (rule unsigned_less)
  then have "unat b < 256" by simp
  then have "unat b div 16 < length ''0123456789abcdef''"
    and "unat b mod 16 < length ''0123456789abcdef''"
    by simp_all
  then have "''0123456789abcdef'' ! (unat b div 16) \<in> set ''0123456789abcdef''"
    and "''0123456789abcdef'' ! (unat b mod 16) \<in> set ''0123456789abcdef''"
    by (simp_all only: nth_mem)
  then show ?thesis by (simp only: hex_byte_def set_simps insert_subset empty_subsetI simp_thms)
qed

lemma bytes_hex_length: "length (bytes_hex bs) = 2 * length bs"
  by (induction bs) (simp_all add: bytes_hex_def hex_byte_def)

lemma bytes_hex_digits: "set (bytes_hex bs) \<subseteq> set ''0123456789abcdef''"
proof -
  have "set (bytes_hex bs) = (\<Union>b \<in> set bs. set (hex_byte b))"
    by (simp add: bytes_hex_def)
  with hex_byte_digits show ?thesis by blast
qed

text \<open>
  C10, in the form that holds. For a batch with at least one frame, buffer mode answers
  as follows. When the rows project, the table builds and \<^verbatim>\<open>pq.write_table\<close> writes it,
  the response is exactly \<open>success\<close>, the hexadecimal text of the bytes written (two
  digits for each byte) under \<open>parquet_base64\<close>, and the number of frames of the batch
  under \<open>num_rows\<close>. When the projection, the construction of the table or
  \<^verbatim>\<open>pq.write_table\<close> raises, the call fails with status 500 and the text of that exception
  as detail. The rows project, one for each frame, when the \<open>observation\<close> and \<open>action\<close>
  entries of every frame are dicts or absent.
\<close>

theorem convert_response:
  assumes "0 < total_frames eps"
  shows "(\<forall>e. convert_loop eps [] = Inl e \<longrightarrow>
            convert_to_parquet E eps = Inl (HTTPException 500 (Str e)))
       \<and> (\<forall>all_rows. convert_loop eps [] = Inr all_rows \<longrightarrow>
            length all_rows = total_frames eps
          \<and> (\<forall>e. convert_table E all_rows = Inl e \<longrightarrow>
                 convert_to_parquet E eps = Inl (HTTPException 500 (Str e)))
          \<and> (\<forall>table. convert_table E all_rows = Inr table \<longrightarrow>
                 (\<forall>e. write_table E table = Inl e \<longrightarrow>
                    convert_to_parquet E eps = Inl (HTTPException 500 (Str e)))
               \<and> (\<forall>file. write_table E table = Inr file \<longrightarrow>
                      convert_to_parquet E eps =
                        Inr [(''success'', JBool True),
                             (''parquet_base64'', JStr (bytes_hex file)),
                             (''num_rows'', JInt (int (total_frames eps)))]
                    \<and> length (bytes_hex file) = 2 * length file
                    \<and> set (bytes_hex file) \<subseteq> set ''0123456789abcdef'')))
       \<and> (list_all (\<lambda>ep. list_all well_formed_frame (frames ep)) eps \<longrightarrow>
            (\<exists>all_rows. convert_loop eps [] = Inr all_rows))"
proof (intro conjI allI impI)
  fix e assume "convert_loop eps [] = Inl e"
  then show "convert_to_parquet E eps = Inl (HTTPException 500 (Str e))"
    by (simp add: convert_to_parquet_def convert_body_def ebind_def)
next
  fix all_rows assume rows: "convert_loop eps [] = Inr all_rows"
  from convert_loop_Inr [OF rows] assms
  have ne: "all_rows \<noteq> []" and len: "length all_rows = total_frames eps" by auto
  show "length all_rows = total_frames eps" by (rule len)
  {
    fix e assume "convert_table E all_rows = Inl e"
    with rows ne show "convert_to_parquet E eps = Inl (HTTPException 500 (Str e))"
      by (simp add: convert_to_parquet_def convert_body_def ebind_def)
  next
    fix table assume table: "convert_table E all_rows = Inr table"
    {
      fix e assume "write_table E table = Inl e"
      with rows ne table show "convert_to_parquet E eps = Inl (HTTPException 500 (Str e))"
        by (simp add: convert_to_parquet_def convert_body_def ebind_def)
    next
      fix written assume "write_table E table = Inr written"
      with rows ne table len
      show "convert_to_parquet E eps =
              Inr [(''success'', JBool True),
                   (''parquet_base64'', JStr (bytes_hex written)),
                   (''num_rows'', JInt (int (total_frames eps)))]"
        by (simp add: convert_to_parquet_def convert_body_def ebind_def)
      show "length (bytes_hex written) = 2 * length written" by (rule bytes_hex_length)
      show "set (bytes_hex written) \<subseteq> set ''0123456789abcdef''" by (rule bytes_hex_digits)
    }
  }
next
  assume "list_all (\<lambda>ep. list_all well_formed_frame (frames ep)) eps"
  then show "\<exists>all_rows. convert_loop eps [] = Inr all_rows"
    by (rule convert_loop_well_formed)
qed

theorem convert_response_witness:
  "0 < total_frames [\<lparr>episodeIndex = 4, frames = [[], []], metadata = []\<rparr>]
   \<and> convert_loop [\<lparr>episodeIndex = 4, frames = [[], []], metadata = []\<rparr>] [] =
       Inr [[(''episode_index'', JInt 4), (''frame_index'', JInt 0),
             (''timestamp'', JFloat (Fin 0))],
            [(''episode_index'', JInt 4), (''frame_index'', JInt 1),
             (''timestamp'', JFloat (Fin (4803839602528529 / 2 ^ 57)))]]
   \<and> convert_table sample_env
         [[(''episode_index'', JInt 4), (''frame_index'', JInt 0),
           (''timestamp'', JFloat (Fin 0))],
          [(''episode_index'', JInt 4), (''frame_index'', JInt 1),
           (''timestamp'', JFloat (Fin (4803839602528529 / 2 ^ 57)))]] =
       Inr [(''episode_index'', Arr Pa_int64 [JInt 4, JInt 4]),
            (''frame_index'', Arr Pa_int64 [JInt 0, JInt 1]),
            (''timestamp'',
               Arr Pa_float64 [JFloat (Fin 0), JFloat (Fin (4803839602528529 / 2 ^ 57))])]
   \<and> write_table sample_env
         [(''episode_index'', Arr Pa_int64 [JInt 4, JInt 4]),
          (''frame_index'', Arr Pa_int64 [JInt 0, JInt 1]),
          (''timestamp'',
             Arr Pa_float64 [JFloat (Fin 0), JFloat (Fin (4803839602528529 / 2 ^ 57))])] =
       Inr [0x50, 0x41, 0x52, 0x31, 0x03]
   \<and> convert_to_parquet sample_env [\<lparr>episodeIndex = 4, frames = [[], []], metadata = []\<rparr>] =
       Inr [(''success'', JBool True), (''parquet_base64'', JStr ''5041523103''),
            (''num_rows'', JInt 2)]"
proof -
  let ?eps = "[\<lparr>episodeIndex = 4, frames = [[], []], metadata = []\<rparr>]"
  let ?rows = "[[(''episode_index'', JInt 4), (''frame_index'', JInt 0),
                 (''timestamp'', JFloat (Fin 0))],
                [(''episode_index'', JInt 4), (''frame_index'', JInt 1),
                 (''timestamp'', JFloat (Fin (4803839602528529 / 2 ^ 57)))]]"
  let ?table = "[(''episode_index'', Arr Pa_int64 [JInt 4, JInt 4]),
                 (''frame_index'', Arr Pa_int64 [JInt 0, JInt 1]),
                 (''timestamp'',
                    Arr Pa_float64 [JFloat (Fin 0), JFloat (Fin (4803839602528529 / 2 ^ 57))])]"
  let ?file = "[0x50, 0x41, 0x52, 0x31, 0x03] :: 8 word list"
  have n: "0 < total_frames ?eps" by (simp add: total_frames_def)
  have rows: "convert_loop ?eps [] = Inr ?rows"
    by (simp add: eval_simps truediv_30_evals)
  have table: "convert_table sample_env ?rows = Inr ?table"
    by (simp add: convert_table_def convert_columns_def required_column_def
        optional_column_def pa_table_def sample_env_def pa_array_def pa_value_def
        pa_scalar_def ebind_def)
  have written: "write_table sample_env ?table = Inr ?file"
    by (simp add: sample_env_def)
  have hex: "bytes_hex ?file = ''5041523103''"
    by (simp add: bytes_hex_def hex_byte_def)
  have frames: "total_frames ?eps = 2" by (simp add: total_frames_def)
  from convert_response [OF n, of sample_env] rows table written
  have "convert_to_parquet sample_env ?eps =
      Inr [(''success'', JBool True), (''parquet_base64'', JStr (bytes_hex ?file)),
           (''num_rows'', JInt (int (total_frames ?eps)))]"
    by blast
  then have "convert_to_parquet sample_env ?eps =
      Inr [(''success'', JBool True), (''parquet_base64'', JStr ''5041523103''),
           (''num_rows'', JInt 2)]"
    by (simp only: hex frames) simp
  with n rows table written show ?thesis by (simp only: simp_thms)
qed

text \<open>
  C10 as stated fails: a batch of one frame whose \<open>observation\<close> is a number. The test
  \<^verbatim>\<open>"jointPositions" in obs\<close> raises \<^verbatim>\<open>TypeError\<close>, and the response is the error 500.
\<close>

theorem convert_response_counterexample:
  "0 < total_frames [\<lparr>episodeIndex = 0, frames = [[(''observation'', JInt 5)]], metadata = []\<rparr>]
   \<and> convert_to_parquet sample_env
         [\<lparr>episodeIndex = 0, frames = [[(''observation'', JInt 5)]], metadata = []\<rparr>] =
       Inl (HTTPException 500 (Str TypeError))"
  by (simp add: total_frames_def convert_to_parquet_def convert_body_def eval_simps)

section \<open>Feature descriptors\<close>

lemma make_info_feature:
  assumes "make_info request all_rows = Inr info"
    and "name = ''observation.state'' \<or> name = ''action''"
  shows "\<exists>shape fs. feature_shape all_rows name = Inr shape
           \<and> map_of info ''features'' = Some (JDict fs)
           \<and> map_of fs name = Some (feature shape)"
  using assms by (auto simp: make_info_def ebind_Inr_iff)

text \<open>
  C9. When directory mode compiles a batch with at least one row, the descriptors of
  \<open>observation.state\<close> and \<open>action\<close> in \<^verbatim>\<open>info.json\<close> have the shape \<open>[W]\<close>, \<open>W\<close> the
  length of that field in the first projected row (0 when the row has no such field),
  and the same six names whatever \<open>W\<close> is.
\<close>

theorem feature_descriptors:
  assumes "Upload_folder repo_id b \<in> set (fst (upload_dataset E request))"
    and "upload_loop (episodes request) ([], [], []) = Inr (row # rows, episode_metadata, tasks)"
    and "name = ''observation.state'' \<or> name = ''action''"
  shows "\<exists>W fs.
           map_of (info_json b) ''features'' = Some (JDict fs)
         \<and> map_of fs name =
             Some (JDict [(''dtype'', JStr ''float32''),
                          (''shape'', JList [JInt (int W)]),
                          (''names'', JList [JStr ''joint_1'', JStr ''joint_2'', JStr ''joint_3'',
                                             JStr ''joint_4'', JStr ''joint_5'', JStr ''gripper''])])
         \<and> py_len (dict_get row name (JList [])) = Inr W
         \<and> (map_of row name = None \<longrightarrow> W = 0)
         \<and> (\<forall>xs. map_of row name = Some (JList xs) \<longrightarrow> W = length xs)"
proof -
  from compile_bundle_Inr [OF uploaded_is_compiled [OF assms(1)]] assms(2)
  have info: "make_info request (row # rows) = Inr (info_json b)" by auto
  from make_info_feature [OF info assms(3)] obtain shape fs where
    shape: "feature_shape (row # rows) name = Inr shape" and
    fs: "map_of (info_json b) ''features'' = Some (JDict fs)" "map_of fs name = Some (feature shape)"
    by blast
  from shape obtain W where
    W: "py_len (dict_get row name (JList [])) = Inr W" "shape = JList [JInt (int W)]"
    by (auto simp: feature_shape_def ebind_Inr_iff)
  have "map_of row name = None \<longrightarrow> W = 0"
    and "\<forall>xs. map_of row name = Some (JList xs) \<longrightarrow> W = length xs"
    using W(1) by (auto simp: dict_get_def)
  with fs W show ?thesis
    by (auto simp: feature_def joint_names_def)
qed

lemma pair_loop:
  "upload_loop (episodes pair_request) ([], [], []) =
     Inr ([pair_row], episodes_jsonl pair_bundle, [JStr ''manipulation task''])"
  by (simp add: pair_request_def eval_simps truediv_30_evals episode_task_def episode_meta_def
      set_add_def pair_row_def pair_bundle_def)

lemma pair_compiles: "compile_bundle sample_env pair_request ''alice/pairs'' = Inr pair_bundle"
proof -
  have "make_table sample_env [pair_row] = Inr (the (parquet_table pair_bundle))"
    by (simp add: pair_row_def make_table_def schema_fields_def vector_field_def ebind_def
        to_columns_def cell_value_def sample_env_def pa_array_def pa_value_def pa_scalar_def
        pair_bundle_def eval_nat_numeral)
  moreover have "make_info pair_request [pair_row] = Inr (info_json pair_bundle)"
    by (simp add: pair_row_def make_info_def feature_shape_def dict_get_def ebind_def
        total_frames_def pair_request_def pair_bundle_def str_nat.simps)
  ultimately show ?thesis
    unfolding compile_bundle_def pair_loop
    by (simp add: ebind_def)
      (simp add: pair_bundle_def sample_env_def make_readme_def pair_request_def
        total_frames_def)
qed

lemma pair_uploaded:
  "Upload_folder ''alice/pairs'' pair_bundle \<in> set (fst (upload_dataset sample_env pair_request))"
  using pair_compiles
  by (simp add: upload_dataset_def Let_def sample_env_def pair_request_def)

theorem feature_descriptors_witness:
  "Upload_folder ''alice/pairs'' pair_bundle \<in> set (fst (upload_dataset sample_env pair_request))
   \<and> upload_loop (episodes pair_request) ([], [], []) =
       Inr ([pair_row], episodes_jsonl pair_bundle, [JStr ''manipulation task''])
   \<and> map_of pair_row ''observation.state'' = Some (JList [JFloat (Fin 1), JFloat (Fin 2)])
   \<and> map_of pair_row ''action'' = None
   \<and> map_of (info_json pair_bundle) ''features'' =
       Some (JDict
         [(''observation.state'',
             JDict [(''dtype'', JStr ''float32''), (''shape'', JList [JInt 2]),
                    (''names'', JList [JStr ''joint_1'', JStr ''joint_2'', JStr ''joint_3'',
                                       JStr ''joint_4'', JStr ''joint_5'', JStr ''gripper''])]),
          (''action'',
             JDict [(''dtype'', JStr ''float32''), (''shape'', JList [JInt 0]),
                    (''names'', JList [JStr ''joint_1'', JStr ''joint_2'', JStr ''joint_3'',
                                       JStr ''joint_4'', JStr ''joint_5'', JStr ''gripper''])])])"
  using feature_descriptors [OF pair_uploaded pair_loop disjI1 [OF refl]]
    pair_uploaded pair_loop
  by (simp add: pair_row_def pair_bundle_def feature_def joint_names_def)

section \<open>The task dictionary\<close>

lemma py_eq_JStr: "py_eq (JStr s) y \<longleftrightarrow> y = JStr s"
  by (cases y) (auto simp: py_eq_def)

lemma set_add_JStr:
  "set_add (JStr s) ts = Inr (if JStr s \<in> set ts then ts else ts @ [JStr s])"
  by (auto simp: set_add_def list_ex_iff py_eq_JStr)

lemma upload_loop_tasks:
  assumes "upload_loop eps (rows0, metas0, tasks0) = Inr (rows, metas, tasks)"
    and "\<forall>ep \<in> set eps. \<exists>s. episode_task ep = JStr s"
    and "distinct tasks0"
  shows "distinct tasks \<and> set tasks = set tasks0 \<union> episode_task ` set eps"
  using assms
proof (induction eps arbitrary: rows0 metas0 tasks0)
  case Nil
  then show ?case by simp
next
  case (Cons ep eps)
  from Cons.prems(2) obtain s where s: "episode_task ep = JStr s" by auto
  let ?tasks' = "if JStr s \<in> set tasks0 then tasks0 else tasks0 @ [JStr s]"
  from Cons.prems(1) obtain rs where
    rest: "upload_loop eps (rows0 @ rs, metas0 @ [episode_meta ep], ?tasks') = Inr (rows, metas, tasks)"
    by (auto simp: s set_add_JStr split: sum.splits if_splits)
  have "distinct ?tasks'" using Cons.prems(3) by simp
  from Cons.IH [OF rest _ this] Cons.prems(2)
  have "distinct tasks \<and> set tasks = set ?tasks' \<union> episode_task ` set eps" by simp
  then show ?case by (auto simp: s)
qed

lemma task_lines_index:
  "map (\<lambda>l. map_of l ''task_index'') (task_lines i ts) =
     map (\<lambda>j. Some (JInt (int j))) [i ..< i + length ts]"
proof (induction ts arbitrary: i)
  case Nil
  then show ?case by simp
next
  case (Cons t ts)
  have "[i ..< i + length (t # ts)] = i # [Suc i ..< Suc i + length ts]"
    by (simp add: upt_rec)
  with Cons [of "Suc i"] show ?case by simp
qed

lemma task_lines_task: "map (\<lambda>l. map_of l ''task'') (task_lines i ts) = map Some ts"
  by (induction ts arbitrary: i) simp_all

lemma task_lines_keys: "l \<in> set (task_lines i ts) \<Longrightarrow> map fst l = [''task_index'', ''task'']"
  by (induction ts arbitrary: i) auto

lemma task_lines_length: "length (task_lines i ts) = length ts"
  by (induction ts arbitrary: i) simp_all

text \<open>
  C8. When directory mode compiles a batch whose language instructions are strings,
  and the set of tasks yields each of its elements once, \<^verbatim>\<open>tasks.jsonl\<close> has the indices
  0, 1, 2, ... in this order, no task twice, and as tasks exactly the language
  instructions of the episodes, with \<^verbatim>\<open>manipulation task\<close> for an episode that has none.
\<close>

theorem task_dictionary:
  assumes "Upload_folder repo_id b \<in> set (fst (upload_dataset E request))"
    and "\<forall>ts. distinct ts \<longrightarrow> distinct (set_iter E ts) \<and> set (set_iter E ts) = set ts"
    and "\<forall>ep \<in> set (episodes request). \<forall>v.
           map_of (Episode.metadata ep) ''languageInstruction'' = Some v \<longrightarrow> (\<exists>s. v = JStr s)"
  shows "map (\<lambda>l. map_of l ''task_index'') (tasks_jsonl b) =
           map (\<lambda>i. Some (JInt (int i))) [0 ..< length (tasks_jsonl b)]
       \<and> distinct (map (\<lambda>l. map_of l ''task'') (tasks_jsonl b))
       \<and> set (map (\<lambda>l. map_of l ''task'') (tasks_jsonl b)) =
           (\<lambda>ep. Some (case map_of (Episode.metadata ep) ''languageInstruction'' of
                          Some v \<Rightarrow> v
                        | None \<Rightarrow> JStr ''manipulation task''))
             ` set (episodes request)
       \<and> (\<forall>l \<in> set (tasks_jsonl b). map fst l = [''task_index'', ''task''])"
proof -
  from compile_bundle_Inr [OF uploaded_is_compiled [OF assms(1)]] obtain all_rows tasks where
    loop: "upload_loop (episodes request) ([], [], []) = Inr (all_rows, episodes_jsonl b, tasks)" and
    lines: "tasks_jsonl b = task_lines 0 (set_iter E tasks)"
    by blast
  have strs: "\<forall>ep \<in> set (episodes request). \<exists>s. episode_task ep = JStr s"
    using assms(3) by (auto simp: episode_task_def dict_get_def split: option.splits)
  from upload_loop_tasks [OF loop strs]
  have tasks: "distinct tasks" "set tasks = episode_task ` set (episodes request)" by simp_all
  with assms(2) have iter: "distinct (set_iter E tasks)"
    "set (set_iter E tasks) = episode_task ` set (episodes request)" by simp_all
  have "map (\<lambda>l. map_of l ''task_index'') (tasks_jsonl b) =
           map (\<lambda>i. Some (JInt (int i))) [0 ..< length (tasks_jsonl b)]"
    using task_lines_index [of 0 "set_iter E tasks"] by (simp add: lines task_lines_length)
  moreover have "distinct (map (\<lambda>l. map_of l ''task'') (tasks_jsonl b))"
    using iter(1) by (simp add: lines task_lines_task distinct_map)
  moreover have "set (map (\<lambda>l. map_of l ''task'') (tasks_jsonl b)) =
           (\<lambda>ep. Some (case map_of (Episode.metadata ep) ''languageInstruction'' of
                          Some v \<Rightarrow> v
                        | None \<Rightarrow> JStr ''manipulation task''))
             ` set (episodes request)"
  proof -
    have et: "episode_task ep =
        (case map_of (Episode.metadata ep) ''languageInstruction'' of
           Some v \<Rightarrow> v
         | None \<Rightarrow> JStr ''manipulation task'')" for ep
      by (simp add: episode_task_def dict_get_def split: option.splits)
    have "Some ` episode_task ` set (episodes request) =
        (\<lambda>ep. Some (case map_of (Episode.metadata ep) ''languageInstruction'' of
                       Some v \<Rightarrow> v
                     | None \<Rightarrow> JStr ''manipulation task'')) ` set (episodes request)"
      by (simp add: image_image et)
    then show ?thesis
      using iter(2) by (simp only: lines task_lines_task set_map)
  qed
  moreover have "\<forall>l \<in> set (tasks_jsonl b). map fst l = [''task_index'', ''task'']"
    using task_lines_keys by (auto simp: lines)
  ultimately show ?thesis by blast
qed

lemma tasks_uploaded:
  "Upload_folder ''alice/tasks'' tasks_bundle
     \<in> set (fst (upload_dataset sample_env tasks_request))"
proof -
  have "upload_loop (episodes tasks_request) ([], [], []) =
      Inr ([], episodes_jsonl tasks_bundle, [JStr ''pick'', JStr ''manipulation task''])"
    by (simp add: tasks_request_def episode_task_def episode_meta_def dict_get_def
        set_add_JStr tasks_bundle_def)
  then have "compile_bundle sample_env tasks_request ''alice/tasks'' = Inr tasks_bundle"
    unfolding compile_bundle_def
    by (simp add: ebind_def make_info_def feature_shape_def)
      (simp add: tasks_bundle_def tasks_request_def sample_env_def total_frames_def
        make_readme_def str_nat.simps)
  then show ?thesis
    by (simp add: upload_dataset_def Let_def sample_env_def tasks_request_def)
qed

theorem task_dictionary_witness:
  "Upload_folder ''alice/tasks'' tasks_bundle
     \<in> set (fst (upload_dataset sample_env tasks_request))
   \<and> map (\<lambda>ep. map_of (Episode.metadata ep) ''languageInstruction'') (episodes tasks_request) =
       [Some (JStr ''pick''), None, Some (JStr ''pick'')]
   \<and> tasks_jsonl tasks_bundle =
       [[(''task_index'', JInt 0), (''task'', JStr ''pick'')],
        [(''task_index'', JInt 1), (''task'', JStr ''manipulation task'')]]"
proof -
  have iter: "\<forall>ts. distinct ts \<longrightarrow>
      distinct (set_iter sample_env ts) \<and> set (set_iter sample_env ts) = set ts"
    by (simp add: sample_env_def)
  have strs: "\<forall>ep \<in> set (episodes tasks_request). \<forall>v.
      map_of (Episode.metadata ep) ''languageInstruction'' = Some v \<longrightarrow> (\<exists>s. v = JStr s)"
    by (simp add: tasks_request_def)
  from task_dictionary [OF tasks_uploaded iter strs] tasks_uploaded show ?thesis
    by (simp add: tasks_request_def tasks_bundle_def)
qed

section \<open>Vectors of the wrong width\<close>

lemma pa_value_wrong_length:
  "length zs \<noteq> w \<Longrightarrow> \<exists>e. pa_value E (Pa_fixed_list t w) (JList zs) = Inl e"
  by (simp add: pa_value_def split: sum.splits)

lemma cell_value_list:
  assumes "map_of row name = Some (JList ys)" and "cell_value E row name = Inr c"
  shows "\<exists>zs. c = JList zs \<and> length zs = length ys"
  using assms by (auto simp: cell_value_def dest: emap_length split: sum.splits)

lemma schema_has_vector_field:
  assumes "schema_fields row0 = Inr schema"
    and "name = ''observation.state'' \<or> name = ''action''"
    and "map_of row0 name = Some (JList xs)"
  shows "(name, Pa_fixed_list Pa_float32 (length xs)) \<in> set schema"
proof -
  from assms(1) obtain state action where
    sa: "vector_field row0 ''observation.state'' = Inr state"
      "vector_field row0 ''action'' = Inr action" and
    schema: "schema = [(''episode_index'', Pa_int64), (''frame_index'', Pa_int64),
               (''timestamp'', Pa_float64), (''task_index'', Pa_int64)] @ state @ action"
    by (rule schema_fields_Inr)
  from assms(2) show ?thesis
  proof
    assume "name = ''observation.state''"
    with sa(1) assms(3) have "state = [(name, Pa_fixed_list Pa_float32 (length xs))]"
      by (simp add: vector_field_def ebind_def)
    with schema show ?thesis by simp
  next
    assume "name = ''action''"
    with sa(2) assms(3) have "action = [(name, Pa_fixed_list Pa_float32 (length xs))]"
      by (simp add: vector_field_def ebind_def)
    with schema show ?thesis by simp
  qed
qed

lemma list_all2_member:
  "list_all2 P xs ys \<Longrightarrow> x \<in> set xs \<Longrightarrow> \<exists>y \<in> set ys. P x y"
  by (induction rule: list_all2_induct) auto

lemma make_table_schema:
  assumes "make_table E (r # rs) = Inr t"
  shows "\<exists>schema. schema_fields r = Inr schema
           \<and> list_all2 (\<lambda>(n, ty) (n', arr). n' = n \<and>
                 pa_array E (field_column E (r # rs) n) ty = Inr arr) schema t
           \<and> (\<forall>row \<in> set (r # rs). \<forall>n \<in> fst ` set schema. \<exists>c. cell_value E row n = Inr c)"
  by (rule make_table_Inr [OF assms]) blast

text \<open>No table is built from rows that disagree on the width of a vector field.\<close>

lemma ragged_make_table_fails:
  assumes "name = ''observation.state'' \<or> name = ''action''"
    and "map_of row0 name = Some (JList xs)"
    and "r \<in> set rows" and "map_of r name = Some (JList ys)" and "length ys \<noteq> length xs"
  shows "\<exists>e. make_table E (row0 # rows) = Inl e"
proof (cases "make_table E (row0 # rows)")
  case (Inl e)
  then show ?thesis by blast
next
  case (Inr t)
  from make_table_schema [OF this] obtain schema where
    schema: "schema_fields row0 = Inr schema" and
    arrays: "list_all2 (\<lambda>(n, ty) (n', arr). n' = n \<and>
               pa_array E (field_column E (row0 # rows) n) ty = Inr arr) schema t" and
    cells: "\<forall>row \<in> set (row0 # rows). \<forall>n \<in> fst ` set schema. \<exists>c. cell_value E row n = Inr c"
    by blast
  let ?ty = "Pa_fixed_list Pa_float32 (length xs)"
  have field: "(name, ?ty) \<in> set schema"
    by (rule schema_has_vector_field [OF schema assms(1,2)])
  from list_all2_member [OF arrays field] obtain arr where
    arr: "pa_array E (field_column E (row0 # rows) name) ?ty = Inr arr"
    by auto
  from field have "name \<in> fst ` set schema" by force
  moreover from assms(3) have "r \<in> set (row0 # rows)" by simp
  ultimately obtain c where c: "cell_value E r name = Inr c"
    using cells by blast
  from cell_value_list [OF assms(4) c] obtain zs where
    zs: "c = JList zs" "length zs = length ys" by blast
  have "JList zs \<in> set (field_column E (row0 # rows) name)"
    using assms(3) c zs(1) by (force simp: field_column_def)
  from pa_array_Inr(3) [OF arr this] pa_value_wrong_length [of zs "length xs" E Pa_float32]
  show ?thesis using zs(2) assms(5) by auto
qed

text \<open>The handler fails when the compile step does, and then hands nothing over.\<close>

lemma compile_failure_reaches_caller:
  assumes "\<And>repo_id. \<exists>e. compile_bundle E request repo_id = Inl e"
  shows "\<exists>e. snd (upload_dataset E request) = Inl e"
    and "Upload_folder repo_id b \<notin> set (fst (upload_dataset E request))"
proof -
  show "\<exists>e. snd (upload_dataset E request) = Inl e"
  proof (cases "whoami E (hfToken request)")
    case (Inl e)
    then show ?thesis by (simp add: upload_dataset_def)
  next
    case (Inr username)
    from assms [of "username @ ''/'' @ repoName request"] obtain e where
      "compile_bundle E request (username @ ''/'' @ repoName request) = Inl e" by blast
    with Inr show ?thesis
      by (auto simp: upload_dataset_def Let_def split: sum.splits)
  qed
  show "Upload_folder repo_id b \<notin> set (fst (upload_dataset E request))"
    using uploaded_is_compiled [of repo_id b E request] assms [of repo_id] by auto
qed

lemma map_of_without_field:
  "map_of (without_field name row) k = (if k = name then None else map_of row k)"
  by (induction row) (auto simp: without_field_def)

lemma emap_Inl_member: "emap f xs = Inl e \<Longrightarrow> \<exists>x \<in> set xs. f x = Inl e"
  by (induction xs) (auto split: sum.splits)

lemma emap_narrow:
  "emap (pa_scalar E Pa_float32) (map JFloat fs) = Inr (map (\<lambda>f. JFloat (narrow32 E f)) fs)"
  by (induction fs) (simp_all add: pa_scalar_def)

lemma pa_value_float_list:
  "pa_value E (Pa_fixed_list Pa_float32 w) (JList (map JFloat fs)) =
     (if length fs = w then Inr (JList (map (\<lambda>f. JFloat (narrow32 E f)) fs))
      else Inl (ArrowInvalid_length w (length fs)))"
  by (simp add: pa_value_def emap_narrow)

lemma to_columns_succeeds:
  assumes "\<forall>row \<in> set all_rows. \<forall>n \<in> fst ` set schema. \<exists>c. cell_value E row n = Inr c"
  shows "to_columns E schema all_rows =
           Inr (map (\<lambda>n. (n, field_column E all_rows n)) (map fst schema))"
proof -
  have "\<forall>row \<in> set all_rows. \<exists>cs. emap (cell_value E row) (map fst schema) = Inr cs"
  proof
    fix row assume "row \<in> set all_rows"
    with assms have "\<forall>n \<in> set (map fst schema). \<exists>c. cell_value E row n = Inr c" by simp
    from emap_all_Inr [OF this] show "\<exists>cs. emap (cell_value E row) (map fst schema) = Inr cs"
      by blast
  qed
  from emap_all_Inr [OF this] obtain css where
    "emap (\<lambda>row. emap (cell_value E row) (map fst schema)) all_rows = Inr css" by blast
  then have "to_columns E schema all_rows = Inr (columns_of (map fst schema) css)"
    by (simp add: to_columns_def)
  from this to_columns_Inr(1) [OF this] show ?thesis
    by (simp add: field_column_def)
qed

lemma map_of_without_vectors:
  "map_of (without_vectors row) k =
     (if k = ''observation.state'' \<or> k = ''action'' then None else map_of row k)"
  by (simp add: without_vectors_def map_of_without_field)

text \<open>
  The cell of a vector field that the row gives as a list of numbers, or not at all.
\<close>

lemma vector_cell:
  assumes "\<forall>v. map_of row name = Some v \<longrightarrow>
             (\<exists>vs fs. v = JList vs \<and> emap (py_float (float_of_str E)) vs = Inr fs)"
  shows "cell_value E row name = Inr JNull \<or>
         (\<exists>fs. cell_value E row name = Inr (JList (map JFloat fs)))"
proof (cases "map_of row name")
  case None
  then show ?thesis by (simp add: cell_value_def)
next
  case (Some v)
  with assms obtain vs fs where
    "v = JList vs" "emap (py_float (float_of_str E)) vs = Inr fs" by blast
  with Some have "cell_value E row name = Inr (JList (map JFloat fs))"
    by (simp add: cell_value_def)
  then show ?thesis by blast
qed

text \<open>
  The array of such a column, for any width: it is built, or the exception is the
  length mismatch for that width.
\<close>

lemma vector_column_result:
  assumes "\<forall>row \<in> set all_rows. \<forall>v. map_of row name = Some v \<longrightarrow>
             (\<exists>vs fs. v = JList vs \<and> emap (py_float (float_of_str E)) vs = Inr fs)"
  shows "(\<exists>arr. pa_array E (field_column E all_rows name) (Pa_fixed_list Pa_float32 w) = Inr arr)
       \<or> (\<exists>n. n \<noteq> w \<and>
              pa_array E (field_column E all_rows name) (Pa_fixed_list Pa_float32 w) =
                Inl (ArrowInvalid_length w n))"
proof -
  let ?ty = "Pa_fixed_list Pa_float32 w"
  have good: "(\<exists>c. pa_value E ?ty v = Inr c) \<or>
      (\<exists>n. n \<noteq> w \<and> pa_value E ?ty v = Inl (ArrowInvalid_length w n))"
    if "v \<in> set (field_column E all_rows name)" for v
  proof -
    from that obtain row where row: "row \<in> set all_rows" "v = projr (cell_value E row name)"
      by (auto simp: field_column_def)
    from row(1) assms have "\<forall>v. map_of row name = Some v \<longrightarrow>
        (\<exists>vs fs. v = JList vs \<and> emap (py_float (float_of_str E)) vs = Inr fs)" by blast
    from vector_cell [OF this] row(2) have "v = JNull \<or> (\<exists>fs. v = JList (map JFloat fs))"
      by auto
    then show ?thesis
    proof
      assume "v = JNull"
      then show ?thesis by (simp add: pa_value_def)
    next
      assume "\<exists>fs. v = JList (map JFloat fs)"
      then obtain fs where "v = JList (map JFloat fs)" by blast
      then show ?thesis by (cases "length fs = w") (simp_all add: pa_value_float_list)
    qed
  qed
  show ?thesis
  proof (cases "emap (pa_value E ?ty) (field_column E all_rows name)")
    case (Inr cs)
    then show ?thesis by (simp add: pa_array_def)
  next
    case (Inl e)
    from emap_Inl_member [OF Inl] good obtain n where
      "n \<noteq> w" "e = ArrowInvalid_length w n" by force
    with Inl show ?thesis by (simp add: pa_array_def)
  qed
qed

text \<open>The array of a column that holds a list of another length is not built.\<close>

lemma ragged_column_fails:
  assumes "\<forall>row \<in> set all_rows. \<forall>v. map_of row name = Some v \<longrightarrow>
             (\<exists>vs fs. v = JList vs \<and> emap (py_float (float_of_str E)) vs = Inr fs)"
    and "r \<in> set all_rows" and "map_of r name = Some (JList ys)" and "length ys \<noteq> w"
  shows "\<exists>n. n \<noteq> w \<and>
           pa_array E (field_column E all_rows name) (Pa_fixed_list Pa_float32 w) =
             Inl (ArrowInvalid_length w n)"
proof -
  let ?ty = "Pa_fixed_list Pa_float32 w"
  from assms(1,2) have "\<forall>v. map_of r name = Some v \<longrightarrow>
      (\<exists>vs fs. v = JList vs \<and> emap (py_float (float_of_str E)) vs = Inr fs)" by blast
  from vector_cell [OF this] assms(3) obtain fs where
    fs: "cell_value E r name = Inr (JList (map JFloat fs))" "length fs = length ys"
    by (auto simp: cell_value_def dest: emap_length split: sum.splits)
  with assms(2,4) have member: "JList (map JFloat fs) \<in> set (field_column E all_rows name)"
    and fails: "pa_value E ?ty (JList (map JFloat fs)) = Inl (ArrowInvalid_length w (length fs))"
    by (force simp: field_column_def, simp add: pa_value_float_list)
  have "\<not> (\<exists>arr. pa_array E (field_column E all_rows name) ?ty = Inr arr)"
  proof
    assume "\<exists>arr. pa_array E (field_column E all_rows name) ?ty = Inr arr"
    then obtain arr where "pa_array E (field_column E all_rows name) ?ty = Inr arr" by blast
    from pa_array_Inr(3) [OF this member] fails show False by simp
  qed
  with vector_column_result [OF assms(1), of w] show ?thesis by blast
qed

text \<open>The schema entry of a vector field that the first row gives as a list, or not at all.\<close>

lemma vector_field_of_list:
  assumes "\<forall>v. map_of row0 name = Some v \<longrightarrow> (\<exists>vs. v = JList vs)"
  shows "\<exists>entry. vector_field row0 name = Inr entry
           \<and> (entry = [] \<or>
               (\<exists>zs. map_of row0 name = Some (JList zs)
                  \<and> entry = [(name, Pa_fixed_list Pa_float32 (length zs))]))"
proof (cases "map_of row0 name")
  case None
  then show ?thesis by (simp add: vector_field_def)
next
  case (Some v)
  with assms obtain vs where "v = JList vs" by blast
  with Some show ?thesis by (simp add: vector_field_def ebind_def)
qed

text \<open>
  When every row gives the two vector fields as lists of numbers or not at all, and
  the batch without the two fields builds its table, the exception is a length
  mismatch: for the ragged field, or for \<open>observation.state\<close>, whose column comes
  first, when the ragged field is \<open>action\<close> and the state is ragged too.
\<close>

lemma ragged_make_table_error:
  assumes "name = ''observation.state'' \<or> name = ''action''"
    and "map_of row0 name = Some (JList xs)"
    and "r \<in> set rows" and "map_of r name = Some (JList ys)" and "length ys \<noteq> length xs"
    and vectors: "\<forall>row \<in> set (row0 # rows). \<forall>field \<in> {''observation.state'', ''action''}.
           \<forall>v. map_of row field = Some v \<longrightarrow>
             (\<exists>vs fs. v = JList vs \<and> emap (py_float (float_of_str E)) vs = Inr fs)"
    and others: "make_table E (map without_vectors (row0 # rows)) = Inr t'"
  shows "\<exists>W n. n \<noteq> W
           \<and> (W = length xs
              \<or> name = ''action''
                \<and> (\<exists>zs. map_of row0 ''observation.state'' = Some (JList zs) \<and> W = length zs))
           \<and> make_table E (row0 # rows) = Inl (ArrowInvalid_length W n)"
proof -
  let ?R = "row0 # rows"
  define base where
    "base = [(''episode_index'', Pa_int64), (''frame_index'', Pa_int64),
             (''timestamp'', Pa_float64), (''task_index'', Pa_int64)]"
  let ?F = "\<lambda>(n, ty). case pa_array E (field_column E ?R n) ty of
                         Inl e \<Rightarrow> Inl e | Inr arr \<Rightarrow> Inr (n, arr)"
  have state_rows: "\<forall>row \<in> set ?R. \<forall>v. map_of row ''observation.state'' = Some v \<longrightarrow>
      (\<exists>vs fs. v = JList vs \<and> emap (py_float (float_of_str E)) vs = Inr fs)"
    and action_rows: "\<forall>row \<in> set ?R. \<forall>v. map_of row ''action'' = Some v \<longrightarrow>
      (\<exists>vs fs. v = JList vs \<and> emap (py_float (float_of_str E)) vs = Inr fs)"
    using vectors by blast+
  from others have "make_table E (without_vectors row0 # map without_vectors rows) = Inr t'"
    by simp
  from make_table_schema [OF this] obtain schema' where
    schema': "schema_fields (without_vectors row0) = Inr schema'" and
    arrays': "list_all2 (\<lambda>(n, ty) (n', arr). n' = n \<and>
                pa_array E (field_column E (map without_vectors ?R) n) ty = Inr arr)
                schema' t'" and
    cells': "\<forall>row \<in> set (map without_vectors ?R). \<forall>n \<in> fst ` set schema'.
                \<exists>c. cell_value E row n = Inr c"
    by auto
  have "schema_fields (without_vectors row0) = Inr base"
    by (simp add: base_def schema_fields_def vector_field_def map_of_without_vectors ebind_def)
  with schema' have base: "schema' = base" by simp
  have base_names: "n \<noteq> ''observation.state'' \<and> n \<noteq> ''action''" if "n \<in> fst ` set base" for n
    using that by (auto simp: base_def)
  have same_cell: "cell_value E (without_vectors row) n = cell_value E row n"
    if "n \<in> fst ` set base" for row n
    using base_names [OF that] by (simp add: cell_value_def map_of_without_vectors)
  then have same_column: "field_column E (map without_vectors ?R) n = field_column E ?R n"
    if "n \<in> fst ` set base" for n
    using that by (simp add: field_column_def)
  have pre: "\<exists>us. emap ?F base = Inr us"
  proof -
    have "\<forall>x \<in> set base. \<exists>y. ?F x = Inr y"
    proof
      fix x assume x: "x \<in> set base"
      obtain n ty where nty: "x = (n, ty)" by (cases x)
      from x base have "x \<in> set schema'" by simp
      from list_all2_member [OF arrays' this] nty obtain arr where
        "pa_array E (field_column E (map without_vectors ?R) n) ty = Inr arr" by auto
      moreover from x nty have "n \<in> fst ` set base" by force
      ultimately show "\<exists>y. ?F x = Inr y"
        using same_column [of n] by (simp add: nty)
    qed
    from emap_all_Inr [OF this] show ?thesis by blast
  qed
  from state_rows have "\<forall>v. map_of row0 ''observation.state'' = Some v \<longrightarrow> (\<exists>vs. v = JList vs)"
    by auto
  from vector_field_of_list [OF this] obtain state where
    state: "vector_field row0 ''observation.state'' = Inr state" and
    state_entry: "state = [] \<or>
      (\<exists>zs. map_of row0 ''observation.state'' = Some (JList zs)
         \<and> state = [(''observation.state'', Pa_fixed_list Pa_float32 (length zs))])"
    by blast
  from action_rows have "\<forall>v. map_of row0 ''action'' = Some v \<longrightarrow> (\<exists>vs. v = JList vs)"
    by auto
  from vector_field_of_list [OF this] obtain action where
    action: "vector_field row0 ''action'' = Inr action" and
    action_entry: "action = [] \<or>
      (\<exists>zs. map_of row0 ''action'' = Some (JList zs)
         \<and> action = [(''action'', Pa_fixed_list Pa_float32 (length zs))])"
    by blast
  define schema where "schema = base @ state @ action"
  have schema: "schema_fields row0 = Inr schema"
    by (simp add: schema_def base_def schema_fields_def state action ebind_def)
  have names: "fst ` set (state @ action) \<subseteq> {''observation.state'', ''action''}"
    using state_entry action_entry by auto
  have cells: "\<forall>row \<in> set ?R. \<forall>n \<in> fst ` set schema. \<exists>c. cell_value E row n = Inr c"
  proof (intro ballI)
    fix row n assume row: "row \<in> set ?R" and n: "n \<in> fst ` set schema"
    from n have "n \<in> fst ` set base \<or> n \<in> fst ` set (state @ action)"
      by (auto simp: schema_def)
    then show "\<exists>c. cell_value E row n = Inr c"
    proof
      assume b: "n \<in> fst ` set base"
      with base have "n \<in> fst ` set schema'" by simp
      moreover from row have "without_vectors row \<in> set (map without_vectors ?R)"
        by (simp only: set_map image_eqI)
      ultimately have "\<exists>c. cell_value E (without_vectors row) n = Inr c"
        using cells' by blast
      with same_cell [OF b] show ?thesis by simp
    next
      assume "n \<in> fst ` set (state @ action)"
      with names have "n = ''observation.state'' \<or> n = ''action''" by auto
      with row state_rows action_rows have "\<forall>v. map_of row n = Some v \<longrightarrow>
          (\<exists>vs fs. v = JList vs \<and> emap (py_float (float_of_str E)) vs = Inr fs)" by blast
      from vector_cell [OF this] show ?thesis by auto
    qed
  qed
  from pre obtain us where us: "emap ?F base = Inr us" by blast
  have "make_table E ?R = emap ?F schema"
    using build_arrays_char [of ?R schema schema E "\<lambda>row n. projr (cell_value E row n)"]
    by (simp add: make_table_def schema ebind_def to_columns_succeeds [OF cells]
        field_column_def)
  also have "\<dots> =
      (case emap ?F state of
         Inl e \<Rightarrow> Inl e
       | Inr ss \<Rightarrow> (case emap ?F action of Inl e \<Rightarrow> Inl e | Inr as \<Rightarrow> Inr (us @ ss @ as)))"
    unfolding schema_def by (simp add: emap_append us split: sum.splits)
  finally have table: "make_table E ?R =
      (case emap ?F state of
         Inl e \<Rightarrow> Inl e
       | Inr ss \<Rightarrow> (case emap ?F action of Inl e \<Rightarrow> Inl e | Inr as \<Rightarrow> Inr (us @ ss @ as)))" .
  from assms(3) have r: "r \<in> set ?R" by simp
  let ?W = "length xs"
  from assms(1) show ?thesis
  proof
    assume n: "name = ''observation.state''"
    with assms(2) state_entry state
    have st: "state = [(''observation.state'', Pa_fixed_list Pa_float32 ?W)]"
      by (auto simp: vector_field_def ebind_def)
    from ragged_column_fails [OF state_rows r, of ys ?W] assms(4,5) n obtain m where
      m: "m \<noteq> ?W"
        "pa_array E (field_column E ?R ''observation.state'') (Pa_fixed_list Pa_float32 ?W) =
           Inl (ArrowInvalid_length ?W m)"
      by auto
    then have "make_table E ?R = Inl (ArrowInvalid_length ?W m)"
      by (simp add: table st)
    with m(1) show ?thesis by blast
  next
    assume n: "name = ''action''"
    with assms(2) action_entry action
    have ac: "action = [(''action'', Pa_fixed_list Pa_float32 ?W)]"
      by (auto simp: vector_field_def ebind_def)
    from ragged_column_fails [OF action_rows r, of ys ?W] assms(4,5) n obtain m where
      m: "m \<noteq> ?W"
        "pa_array E (field_column E ?R ''action'') (Pa_fixed_list Pa_float32 ?W) =
           Inl (ArrowInvalid_length ?W m)"
      by auto
    from state_entry show ?thesis
    proof
      assume "state = []"
      with m(2) have "make_table E ?R = Inl (ArrowInvalid_length ?W m)"
        by (simp add: table ac)
      with m(1) show ?thesis by blast
    next
      assume "\<exists>zs. map_of row0 ''observation.state'' = Some (JList zs)
         \<and> state = [(''observation.state'', Pa_fixed_list Pa_float32 (length zs))]"
      then obtain zs where
        zs: "map_of row0 ''observation.state'' = Some (JList zs)"
          "state = [(''observation.state'', Pa_fixed_list Pa_float32 (length zs))]"
        by blast
      from vector_column_result [OF state_rows, of "length zs"] show ?thesis
      proof
        assume "\<exists>arr. pa_array E (field_column E ?R ''observation.state'')
            (Pa_fixed_list Pa_float32 (length zs)) = Inr arr"
        with m(2) have "make_table E ?R = Inl (ArrowInvalid_length ?W m)"
          by (auto simp: table ac zs(2))
        with m(1) show ?thesis by blast
      next
        assume "\<exists>k. k \<noteq> length zs \<and>
            pa_array E (field_column E ?R ''observation.state'')
              (Pa_fixed_list Pa_float32 (length zs)) = Inl (ArrowInvalid_length (length zs) k)"
        then obtain k where
          k: "k \<noteq> length zs"
            "pa_array E (field_column E ?R ''observation.state'')
               (Pa_fixed_list Pa_float32 (length zs)) = Inl (ArrowInvalid_length (length zs) k)"
          by blast
        then have "make_table E ?R = Inl (ArrowInvalid_length (length zs) k)"
          by (simp add: table zs(2))
        with k(1) n zs(1) show ?thesis by blast
      qed
    qed
  qed
qed

lemma compile_bundle_table_error:
  assumes "upload_loop (episodes request) ([], [], []) = Inr (row0 # rows, episode_metadata, tasks)"
    and "make_table E (row0 # rows) = Inl e"
  shows "compile_bundle E request repo_id = Inl e"
  using assms by (simp add: compile_bundle_def ebind_def)

lemma compile_error_response:
  assumes "whoami E (hfToken request) = Inr u"
    and "create_repo E (u @ ''/'' @ repoName request) (hfToken request) (isPrivate request) = Inr ()"
    and "compile_bundle E request (u @ ''/'' @ repoName request) = Inl e"
  shows "upload_dataset E request =
           ([Create_repo (u @ ''/'' @ repoName request) (isPrivate request)], Inl (reraise e))"
  using assms by (simp add: upload_dataset_def Let_def)

text \<open>
  C3, in the form that holds. In directory mode, when the first projected row has a
  list of width \<open>W\<close> under \<open>observation.state\<close> or \<open>action\<close> and a later row has a
  list of another width there, the handler fails and hands no bundle to the archival
  service: the compile step has no result for any destination. When moreover every row
  gives the two vector fields as lists of numbers or not at all, and the batch without
  the two fields builds its table, the exception of the compile step is the dimension
  mismatch of the Arrow constructor, for a declared width and a width that differs from
  it, and the caller gets it as the detail of an error 500. The declared width is \<open>W\<close>,
  or that of \<open>observation.state\<close> in the first row when the field is \<open>action\<close> and
  the state column, which is built first, is ragged too.
\<close>

theorem ragged_vector_fails:
  assumes "upload_loop (episodes request) ([], [], []) =
             Inr (row0 # rows, episode_metadata, tasks)"
    and "name = ''observation.state'' \<or> name = ''action''"
    and "map_of row0 name = Some (JList xs)"
    and "r \<in> set rows" and "map_of r name = Some (JList ys)" and "length ys \<noteq> length xs"
  shows "(\<exists>e. snd (upload_dataset E request) = Inl e)
       \<and> (\<forall>repo_id b. Upload_folder repo_id b \<notin> set (fst (upload_dataset E request)))
       \<and> (\<forall>repo_id. \<exists>e. compile_bundle E request repo_id = Inl e)
       \<and> ((\<forall>row \<in> set (row0 # rows). \<forall>field \<in> {''observation.state'', ''action''}.
              \<forall>v. map_of row field = Some v \<longrightarrow>
                (\<exists>vs fs. v = JList vs \<and> emap (py_float (float_of_str E)) vs = Inr fs))
           \<and> (\<exists>t'. make_table E (map without_vectors (row0 # rows)) = Inr t')
           \<longrightarrow> (\<exists>W n. n \<noteq> W
                 \<and> (W = length xs
                    \<or> name = ''action''
                      \<and> (\<exists>zs. map_of row0 ''observation.state'' = Some (JList zs)
                             \<and> W = length zs))
                 \<and> (\<forall>repo_id. compile_bundle E request repo_id =
                       Inl (ArrowInvalid_length W n))
                 \<and> (\<forall>u. whoami E (hfToken request) = Inr u
                       \<and> create_repo E (u @ ''/'' @ repoName request) (hfToken request)
                           (isPrivate request) = Inr ()
                       \<longrightarrow> upload_dataset E request =
                             ([Create_repo (u @ ''/'' @ repoName request) (isPrivate request)],
                              Inl (HTTPException 500 (Str (ArrowInvalid_length W n)))))))"
proof -
  from ragged_make_table_fails [OF assms(2-6)] obtain e where
    "make_table E (row0 # rows) = Inl e" by blast
  from compile_bundle_table_error [OF assms(1) this]
  have fails: "\<exists>e. compile_bundle E request repo_id = Inl e" for repo_id by blast
  have kind: "\<exists>W n. n \<noteq> W
                 \<and> (W = length xs
                    \<or> name = ''action''
                      \<and> (\<exists>zs. map_of row0 ''observation.state'' = Some (JList zs)
                             \<and> W = length zs))
                 \<and> (\<forall>repo_id. compile_bundle E request repo_id =
                       Inl (ArrowInvalid_length W n))
                 \<and> (\<forall>u. whoami E (hfToken request) = Inr u
                       \<and> create_repo E (u @ ''/'' @ repoName request) (hfToken request)
                           (isPrivate request) = Inr ()
                       \<longrightarrow> upload_dataset E request =
                             ([Create_repo (u @ ''/'' @ repoName request) (isPrivate request)],
                              Inl (HTTPException 500 (Str (ArrowInvalid_length W n)))))"
    if vectors: "\<forall>row \<in> set (row0 # rows). \<forall>field \<in> {''observation.state'', ''action''}.
              \<forall>v. map_of row field = Some v \<longrightarrow>
                (\<exists>vs fs. v = JList vs \<and> emap (py_float (float_of_str E)) vs = Inr fs)"
      and others: "make_table E (map without_vectors (row0 # rows)) = Inr t'" for t'
  proof -
    from ragged_make_table_error [OF assms(2-6) vectors others] obtain W n where
      n: "n \<noteq> W"
        "W = length xs
           \<or> name = ''action''
             \<and> (\<exists>zs. map_of row0 ''observation.state'' = Some (JList zs) \<and> W = length zs)"
        "make_table E (row0 # rows) = Inl (ArrowInvalid_length W n)"
      by blast
    have c: "compile_bundle E request repo_id = Inl (ArrowInvalid_length W n)"
      for repo_id
      by (rule compile_bundle_table_error [OF assms(1) n(3)])
    have "upload_dataset E request =
        ([Create_repo (u @ ''/'' @ repoName request) (isPrivate request)],
         Inl (HTTPException 500 (Str (ArrowInvalid_length W n))))"
      if "whoami E (hfToken request) = Inr u"
        "create_repo E (u @ ''/'' @ repoName request) (hfToken request) (isPrivate request) = Inr ()"
      for u
      using compile_error_response [OF that c] by simp
    with n(1,2) c show ?thesis by blast
  qed
  from compile_failure_reaches_caller [of E request, OF fails] fails kind
  show ?thesis by blast
qed

lemma ragged_loop:
  "upload_loop (episodes ragged_request) ([], [], []) =
     Inr (ragged_rows,
          [[(''episode_index'', JInt 0), (''tasks'', JList [JStr ''manipulation task'']),
            (''length'', JInt 2)]],
          [JStr ''manipulation task''])"
  by (simp add: ragged_request_def eval_simps truediv_30_evals episode_task_def
      episode_meta_def set_add_def ragged_rows_def)

theorem ragged_vector_fails_witness:
  "upload_loop (episodes ragged_request) ([], [], []) =
     Inr (ragged_rows,
          [[(''episode_index'', JInt 0), (''tasks'', JList [JStr ''manipulation task'']),
            (''length'', JInt 2)]],
          [JStr ''manipulation task''])
   \<and> map (\<lambda>row. map_of row ''action'') ragged_rows =
       [Some (JList [JInt 1, JInt 2, JInt 3, JInt 4, JInt 5, JInt 6]),
        Some (JList [JInt 1, JInt 2, JInt 3, JInt 4, JInt 5])]
   \<and> map (\<lambda>row. map_of row ''observation.state'') ragged_rows = [None, None]
   \<and> make_table sample_env (map without_vectors ragged_rows) =
       Inr [(''episode_index'', Arr Pa_int64 [JInt 0, JInt 0]),
            (''frame_index'', Arr Pa_int64 [JInt 0, JInt 1]),
            (''timestamp'',
               Arr Pa_float64 [JFloat (Fin 0), JFloat (Fin (4803839602528529 / 2 ^ 57))]),
            (''task_index'', Arr Pa_int64 [JInt 0, JInt 0])]
   \<and> make_table sample_env ragged_rows = Inl (ArrowInvalid_length 6 5)
   \<and> upload_dataset sample_env ragged_request =
       ([Create_repo ''alice/ragged'' True],
        Inl (HTTPException 500 (Str (ArrowInvalid_length 6 5))))"
proof -
  let ?six = "[JInt 1, JInt 2, JInt 3, JInt 4, JInt 5, JInt 6]"
  let ?five = "[JInt 1, JInt 2, JInt 3, JInt 4, JInt 5]"
  let ?row0 = "ragged_rows ! 0"
  let ?row1 = "ragged_rows ! 1"
  have rows: "ragged_rows = [?row0, ?row1]" by (simp add: ragged_rows_def)
  have loop: "upload_loop (episodes ragged_request) ([], [], []) =
      Inr (?row0 # [?row1],
           [[(''episode_index'', JInt 0), (''tasks'', JList [JStr ''manipulation task'']),
             (''length'', JInt 2)]],
           [JStr ''manipulation task''])"
    using ragged_loop rows by simp
  have first: "map_of ?row0 ''action'' = Some (JList ?six)"
    and later: "?row1 \<in> set [?row1]" "map_of ?row1 ''action'' = Some (JList ?five)"
      "length ?five \<noteq> length ?six"
    by (simp_all add: ragged_rows_def)
  have vectors: "\<forall>row \<in> set (?row0 # [?row1]). \<forall>field \<in> {''observation.state'', ''action''}.
      \<forall>v. map_of row field = Some v \<longrightarrow>
        (\<exists>vs fs. v = JList vs \<and> emap (py_float (float_of_str sample_env)) vs = Inr fs)"
    by (simp add: ragged_rows_def)
  have others: "make_table sample_env (map without_vectors ragged_rows) =
       Inr [(''episode_index'', Arr Pa_int64 [JInt 0, JInt 0]),
            (''frame_index'', Arr Pa_int64 [JInt 0, JInt 1]),
            (''timestamp'',
               Arr Pa_float64 [JFloat (Fin 0), JFloat (Fin (4803839602528529 / 2 ^ 57))]),
            (''task_index'', Arr Pa_int64 [JInt 0, JInt 0])]"
    by (simp add: ragged_rows_def without_vectors_def without_field_def make_table_def
        schema_fields_def vector_field_def ebind_def to_columns_def cell_value_def
        sample_env_def pa_array_def pa_value_def pa_scalar_def)
  then have others': "\<exists>t'. make_table sample_env (map without_vectors (?row0 # [?row1])) = Inr t'"
    using rows by simp
  have table: "make_table sample_env ragged_rows = Inl (ArrowInvalid_length 6 5)"
    by (simp add: ragged_rows_def make_table_def schema_fields_def vector_field_def ebind_def
        to_columns_def cell_value_def sample_env_def pa_array_def pa_value_def pa_scalar_def)
  have "compile_bundle sample_env ragged_request ''alice/ragged'' = Inl (ArrowInvalid_length 6 5)"
    using compile_bundle_table_error [of ragged_request ?row0 "[?row1]" _ _ sample_env] loop table
      rows by simp
  then have handler: "upload_dataset sample_env ragged_request =
       ([Create_repo ''alice/ragged'' True],
        Inl (HTTPException 500 (Str (ArrowInvalid_length 6 5))))"
    by (simp add: upload_dataset_def Let_def sample_env_def ragged_request_def)
  have absent: "map (\<lambda>row. map_of row ''observation.state'') ragged_rows = [None, None]"
    by (simp add: ragged_rows_def)
  from ragged_vector_fails [OF loop disjI2 [OF refl] first later, of sample_env] vectors others'
  have "\<exists>W n. n \<noteq> W \<and> (\<forall>repo_id. compile_bundle sample_env ragged_request repo_id =
      Inl (ArrowInvalid_length W n))"
    by blast
  with ragged_loop others table handler absent show ?thesis
    by (simp add: ragged_rows_def)
qed

text \<open>
  Rows that are ragged in both vector fields: the table without the two fields is
  built, and the exception is the length mismatch of the state column, which is built
  before the action column.
\<close>

lemma twice_ragged_example:
  "make_table sample_env (map without_vectors twice_ragged_rows) =
     Inr [(''episode_index'', Arr Pa_int64 [JInt 0, JInt 0]),
          (''frame_index'', Arr Pa_int64 [JInt 0, JInt 1]),
          (''timestamp'',
             Arr Pa_float64 [JFloat (Fin 0), JFloat (Fin (4803839602528529 / 2 ^ 57))]),
          (''task_index'', Arr Pa_int64 [JInt 0, JInt 0])]
   \<and> make_table sample_env twice_ragged_rows = Inl (ArrowInvalid_length 2 1)"
  by (simp add: twice_ragged_rows_def without_vectors_def without_field_def make_table_def
      schema_fields_def vector_field_def ebind_def to_columns_def cell_value_def
      sample_env_def pa_array_def pa_value_def pa_scalar_def)

text \<open>
  C3 as stated fails on a batch whose second action is \<^verbatim>\<open>["x"]\<close> after \<^verbatim>\<open>[1, 2]\<close>: the
  widths differ, and the exception is the \<^verbatim>\<open>ValueError\<close> of \<^verbatim>\<open>float("x")\<close>, raised when
  the cells are collected (line 214), before any array is built.
\<close>

theorem ragged_vector_value_error:
  "upload_loop (episodes unparsed_request) ([], [], []) =
     Inr (unparsed_rows,
          [[(''episode_index'', JInt 0), (''tasks'', JList [JStr ''manipulation task'']),
            (''length'', JInt 2)]],
          [JStr ''manipulation task''])
   \<and> map (\<lambda>row. map_of row ''action'') unparsed_rows =
       [Some (JList [JInt 1, JInt 2]), Some (JList [JStr ''x''])]
   \<and> make_table sample_env unparsed_rows = Inl ValueError
   \<and> upload_dataset sample_env unparsed_request =
       ([Create_repo ''alice/unparsed'' True], Inl (HTTPException 500 (Str ValueError)))"
proof -
  have loop: "upload_loop (episodes unparsed_request) ([], [], []) =
     Inr (unparsed_rows,
          [[(''episode_index'', JInt 0), (''tasks'', JList [JStr ''manipulation task'']),
            (''length'', JInt 2)]],
          [JStr ''manipulation task''])"
    by (simp add: unparsed_request_def eval_simps truediv_30_evals episode_task_def
        episode_meta_def set_add_def unparsed_rows_def)
  have table: "make_table sample_env unparsed_rows = Inl ValueError"
    by (simp add: unparsed_rows_def make_table_def schema_fields_def vector_field_def ebind_def
        to_columns_def cell_value_def sample_env_def)
  have "unparsed_rows \<noteq> []" by (simp add: unparsed_rows_def)
  with loop table
  have "compile_bundle sample_env unparsed_request ''alice/unparsed'' = Inl ValueError"
    by (simp add: compile_bundle_def ebind_def)
  then have "upload_dataset sample_env unparsed_request =
       ([Create_repo ''alice/unparsed'' True], Inl (HTTPException 500 (Str ValueError)))"
    by (simp add: upload_dataset_def Let_def sample_env_def unparsed_request_def)
  with loop table show ?thesis by (simp add: unparsed_rows_def)
qed

section \<open>The two modes compared\<close>

text \<open>Whether the copy succeeds, and what it copies, does not depend on the row.\<close>

lemma copy_if_present_Inr:
  assumes "copy_if_present src key field row = Inr row'"
  shows "\<exists>found. row' = (case found of None \<Rightarrow> row | Some v \<Rightarrow> dict_set row field v)
           \<and> (\<forall>r. copy_if_present src key field r =
                  Inr (case found of None \<Rightarrow> r | Some v \<Rightarrow> dict_set r field v))"
proof -
  from assms obtain present where p: "py_contains key src = Inr present"
    by (auto simp: copy_if_present_def ebind_Inr_iff)
  show ?thesis
  proof (cases present)
    case False
    with p assms have "row' = row" and "\<forall>r. copy_if_present src key field r = Inr r"
      by (simp_all add: copy_if_present_def ebind_def)
    then show ?thesis by (intro exI [of _ None]) simp
  next
    case True
    with p assms obtain v where v: "py_getitem src key = Inr v"
      by (auto simp: copy_if_present_def ebind_Inr_iff)
    with p True assms have "row' = dict_set row field v"
      and "\<forall>r. copy_if_present src key field r = Inr (dict_set r field v)"
      by (simp_all add: copy_if_present_def ebind_def)
    then show ?thesis by (intro exI [of _ "Some v"]) simp
  qed
qed

lemma project_row_steps:
  assumes "project_row ep_idx k frame = Inr row_u"
  shows "\<exists>r1 r2 has_joints.
           copy_if_present (dict_get frame ''observation'' (JDict [])) ''jointPositions''
             ''observation.state''
             [(''episode_index'', JInt ep_idx), (''frame_index'', JInt (int k)),
              (''timestamp'', dict_get frame ''timestamp'' (JFloat (truediv_30 k))),
              (''task_index'', JInt 0)] = Inr r1
         \<and> copy_if_present (dict_get frame ''observation'' (JDict [])) ''image''
             ''observation.image'' r1 = Inr r2
         \<and> py_contains ''jointPositions'' (dict_get frame ''action'' (JDict [])) = Inr has_joints
         \<and> (if has_joints
             then ebind (py_getitem (dict_get frame ''action'' (JDict [])) ''jointPositions'')
                    (\<lambda>v. Inr (dict_set r2 ''action'' v))
             else copy_if_present (dict_get frame ''action'' (JDict [])) ''targetPositions''
                    ''action'' r2) = Inr row_u"
  using assms unfolding project_row_def Let_def ebind_Inr_iff by blast

lemma project_row_convert_row:
  assumes "project_row ep_idx k frame = Inr row_u"
  shows "\<exists>row_c. convert_row ep_idx k frame = Inr row_c \<and> same_base_fields row_u row_c"
proof -
  let ?obs = "dict_get frame ''observation'' (JDict [])"
  let ?act = "dict_get frame ''action'' (JDict [])"
  let ?ts = "dict_get frame ''timestamp'' (JFloat (truediv_30 k))"
  let ?base_u = "[(''episode_index'', JInt ep_idx), (''frame_index'', JInt (int k)),
                  (''timestamp'', ?ts), (''task_index'', JInt 0)]"
  let ?base_c = "[(''episode_index'', JInt ep_idx), (''frame_index'', JInt (int k)),
                  (''timestamp'', ?ts)]"
  from project_row_steps [OF assms] obtain r1 r2 has_joints where
    r1: "copy_if_present ?obs ''jointPositions'' ''observation.state'' ?base_u = Inr r1" and
    r2: "copy_if_present ?obs ''image'' ''observation.image'' r1 = Inr r2" and
    has: "py_contains ''jointPositions'' ?act = Inr has_joints" and
    act: "(if has_joints
           then ebind (py_getitem ?act ''jointPositions'') (\<lambda>v. Inr (dict_set r2 ''action'' v))
           else copy_if_present ?act ''targetPositions'' ''action'' r2) = Inr row_u"
    by blast
  from copy_if_present_Inr [OF r1] obtain found where
    found: "r1 = (case found of None \<Rightarrow> ?base_u
                  | Some v \<Rightarrow> dict_set ?base_u ''observation.state'' v)"
      "\<forall>r. copy_if_present ?obs ''jointPositions'' ''observation.state'' r =
         Inr (case found of None \<Rightarrow> r | Some v \<Rightarrow> dict_set r ''observation.state'' v)"
    by blast
  define c1 where "c1 = (case found of None \<Rightarrow> ?base_c
                         | Some v \<Rightarrow> dict_set ?base_c ''observation.state'' v)"
  have c1: "copy_if_present ?obs ''jointPositions'' ''observation.state'' ?base_c = Inr c1"
    using found(2) by (simp add: c1_def)
  have state1: "map_of c1 ''observation.state'' = map_of r1 ''observation.state''"
    by (cases found) (simp_all add: c1_def found(1) map_of_dict_set)
  have "\<exists>row_c. copy_if_present ?act ''jointPositions'' ''action'' c1 = Inr row_c"
  proof (cases has_joints)
    case False
    with has show ?thesis by (simp add: copy_if_present_def ebind_def)
  next
    case True
    with act obtain v where "py_getitem ?act ''jointPositions'' = Inr v"
      by (auto simp: ebind_Inr_iff)
    with has True show ?thesis by (simp add: copy_if_present_def ebind_def)
  qed
  then obtain row_c where c2: "copy_if_present ?act ''jointPositions'' ''action'' c1 = Inr row_c"
    by blast
  from c1 c2 have conv: "convert_row ep_idx k frame = Inr row_c"
    by (simp add: convert_row_def Let_def ebind_def)
  have "map_of row_u ''observation.state'' = map_of r2 ''observation.state''"
  proof (cases has_joints)
    case False
    with act have "copy_if_present ?act ''targetPositions'' ''action'' r2 = Inr row_u"
      by simp
    from copy_if_present_other [OF this, of "''observation.state''"] show ?thesis by simp
  next
    case True
    with act show ?thesis by (auto simp: ebind_Inr_iff map_of_dict_set)
  qed
  also have "\<dots> = map_of r1 ''observation.state''"
    using copy_if_present_other [OF r2, of "''observation.state''"] by simp
  finally have state_u: "map_of row_u ''observation.state'' = map_of r1 ''observation.state''" .
  have state_c: "map_of row_c ''observation.state'' = map_of c1 ''observation.state''"
    using copy_if_present_other [OF c2, of "''observation.state''"] by simp
  have "same_base_fields row_u row_c"
    unfolding same_base_fields_def
    using state1 state_u state_c project_row_base [OF assms] convert_row_base [OF conv]
    by simp
  with conv show ?thesis by blast
qed

lemma project_frames_convert_frames:
  "project_frames ep_idx k fs = Inr rows_u \<Longrightarrow>
     \<exists>rows_c. convert_frames ep_idx k fs = Inr rows_c \<and> list_all2 same_base_fields rows_u rows_c"
proof (induction fs arbitrary: k rows_u)
  case Nil
  then show ?case by simp
next
  case (Cons f fs)
  from Cons.prems obtain r rs where
    r: "project_row ep_idx k f = Inr r" and
    rs: "project_frames ep_idx (Suc k) fs = Inr rs" and
    rows: "rows_u = r # rs"
    by (auto split: sum.splits)
  from project_row_convert_row [OF r] Cons.IH [OF rs] rows show ?case by auto
qed

lemma upload_loop_convert_loop:
  assumes "upload_loop eps (acc_u, metas0, tasks0) = Inr (rows_u, metas, tasks)"
    and "list_all2 same_base_fields acc_u acc_c"
  shows "\<exists>rows_c. convert_loop eps acc_c = Inr rows_c \<and> list_all2 same_base_fields rows_u rows_c"
  using assms
proof (induction eps arbitrary: acc_u acc_c metas0 tasks0)
  case Nil
  then show ?case by simp
next
  case (Cons ep eps)
  from Cons.prems(1) obtain tasks' rs where
    rs: "project_frames (episodeIndex ep) 0 (frames ep) = Inr rs" and
    rest: "upload_loop eps (acc_u @ rs, metas0 @ [episode_meta ep], tasks') = Inr (rows_u, metas, tasks)"
    by (auto split: sum.splits)
  from project_frames_convert_frames [OF rs] obtain cs where
    cs: "convert_frames (episodeIndex ep) 0 (frames ep) = Inr cs" "list_all2 same_base_fields rs cs"
    by blast
  from Cons.prems(2) cs(2) have "list_all2 same_base_fields (acc_u @ rs) (acc_c @ cs)"
    by (rule list_all2_appendI)
  from Cons.IH [OF rest this] cs(1) show ?case by simp
qed

lemma named_arrays_names:
  "list_all2 (\<lambda>(n, ty) (n', arr). n' = n \<and> Q n ty arr) schema t \<Longrightarrow> map fst t = map fst schema"
  by (induction rule: list_all2_induct) auto

lemma make_table_names:
  assumes "make_table E (r # rs) = Inr t"
  shows "\<exists>rest. column_names t =
           [''episode_index'', ''frame_index'', ''timestamp'', ''task_index''] @ rest"
proof -
  from make_table_schema [OF assms] obtain schema where
    schema: "schema_fields r = Inr schema" and
    arrays: "list_all2 (\<lambda>(n, ty) (n', arr). n' = n \<and>
               pa_array E (field_column E (r # rs) n) ty = Inr arr) schema t"
    by blast
  from schema obtain rest where
    "schema = [(''episode_index'', Pa_int64), (''frame_index'', Pa_int64),
               (''timestamp'', Pa_float64), (''task_index'', Pa_int64)] @ rest"
    by (rule schema_fields_Inr) simp
  with named_arrays_names [OF arrays] show ?thesis
    by (simp add: column_names_def)
qed

lemma pa_table_names: "pa_table E columns = Inr t \<Longrightarrow> map fst t = map fst columns"
  unfolding pa_table_def
proof (induction columns arbitrary: t)
  case Nil
  then show ?case by simp
next
  case (Cons c columns)
  obtain name vals where c: "c = (name, vals)" by (cases c)
  from Cons.prems obtain arr t' where
    "emap (\<lambda>(name, vals). ebind (infer E vals) (\<lambda>ty.
             ebind (pa_array E vals ty) (\<lambda>arr. Inr (name, arr)))) columns = Inr t'"
    "t = (name, arr) # t'"
    by (auto simp: c ebind_Inr_iff split: sum.splits)
  with Cons.IH show ?case by (simp add: c)
qed

lemma optional_column_names: "fst ` set (optional_column name all_rows) \<subseteq> {name}"
  by (auto simp: optional_column_def split: list.splits if_splits)

lemma convert_table_names:
  assumes "convert_table E all_rows = Inr t"
  shows "set (column_names t) \<subseteq>
           {''episode_index'', ''frame_index'', ''timestamp'', ''observation.state'', ''action''}"
proof -
  from assms obtain columns where
    columns: "convert_columns all_rows = Inr columns" and t: "pa_table E columns = Inr t"
    by (auto simp: convert_table_def ebind_Inr_iff)
  from columns obtain v1 v2 v3 where
    "columns = [(''episode_index'', v1), (''frame_index'', v2), (''timestamp'', v3)]
       @ optional_column ''observation.state'' all_rows @ optional_column ''action'' all_rows"
    by (auto simp: convert_columns_def required_column_def ebind_Inr_iff)
  then have "fst ` set columns \<subseteq>
      {''episode_index'', ''frame_index'', ''timestamp'', ''observation.state'', ''action''}"
    using optional_column_names [of "''observation.state''" all_rows]
      optional_column_names [of "''action''" all_rows]
    by auto
  with pa_table_names [OF t] show ?thesis
    by (simp add: column_names_def)
qed

text \<open>
  C2, in the form that holds. For the same batch, when the rows of directory mode
  project, the rows of buffer mode project too, as many and in the same order, each with the same
  episode index, frame index, timestamp and state as its counterpart; the table of
  directory mode has a \<open>task_index\<close> column and the table of buffer mode has none.
\<close>

theorem modes_share_base_fields:
  assumes "upload_loop eps ([], [], []) = Inr (rows_u, episode_metadata, tasks)"
  shows "\<exists>rows_c. convert_loop eps [] = Inr rows_c
           \<and> list_all2 same_base_fields rows_u rows_c
           \<and> (rows_u \<noteq> [] \<longrightarrow>
                (\<forall>t_u. make_table E rows_u = Inr t_u \<longrightarrow>
                   ''task_index'' \<in> set (column_names t_u)))
           \<and> (\<forall>t_c. convert_table E rows_c = Inr t_c \<longrightarrow>
                ''task_index'' \<notin> set (column_names t_c))"
proof -
  from upload_loop_convert_loop [OF assms, of "[]"] obtain rows_c where
    rows_c: "convert_loop eps [] = Inr rows_c" "list_all2 same_base_fields rows_u rows_c"
    by auto
  have "''task_index'' \<in> set (column_names t_u)"
    if "rows_u \<noteq> []" "make_table E rows_u = Inr t_u" for t_u
  proof -
    from that(1) obtain r rs where "rows_u = r # rs" by (cases rows_u) auto
    with that(2) make_table_names [of E r rs t_u] show ?thesis by auto
  qed
  moreover have "''task_index'' \<notin> set (column_names t_c)"
    if "convert_table E rows_c = Inr t_c" for t_c
    using convert_table_names [OF that] by auto
  ultimately show ?thesis using rows_c by blast
qed

theorem modes_share_base_fields_witness:
  "upload_loop [\<lparr>episodeIndex = 0, frames = [[]], metadata = []\<rparr>] ([], [], []) =
     Inr ([[(''episode_index'', JInt 0), (''frame_index'', JInt 0),
            (''timestamp'', JFloat (Fin 0)), (''task_index'', JInt 0)]],
          [[(''episode_index'', JInt 0), (''tasks'', JList [JStr ''manipulation task'']),
            (''length'', JInt 1)]],
          [JStr ''manipulation task''])
   \<and> convert_loop [\<lparr>episodeIndex = 0, frames = [[]], metadata = []\<rparr>] [] =
     Inr [[(''episode_index'', JInt 0), (''frame_index'', JInt 0),
           (''timestamp'', JFloat (Fin 0))]]
   \<and> same_base_fields
       [(''episode_index'', JInt 0), (''frame_index'', JInt 0),
        (''timestamp'', JFloat (Fin 0)), (''task_index'', JInt 0)]
       [(''episode_index'', JInt 0), (''frame_index'', JInt 0),
        (''timestamp'', JFloat (Fin 0))]"
proof -
  have loop: "upload_loop [\<lparr>episodeIndex = 0, frames = [[]], metadata = []\<rparr>] ([], [], []) =
     Inr ([[(''episode_index'', JInt 0), (''frame_index'', JInt 0),
            (''timestamp'', JFloat (Fin 0)), (''task_index'', JInt 0)]],
          [[(''episode_index'', JInt 0), (''tasks'', JList [JStr ''manipulation task'']),
            (''length'', JInt 1)]],
          [JStr ''manipulation task''])"
    by (simp add: eval_simps truediv_30_evals episode_task_def episode_meta_def set_add_def)
  have conv: "convert_loop [\<lparr>episodeIndex = 0, frames = [[]], metadata = []\<rparr>] [] =
     Inr [[(''episode_index'', JInt 0), (''frame_index'', JInt 0),
           (''timestamp'', JFloat (Fin 0))]]"
    by (simp add: eval_simps truediv_30_evals)
  from modes_share_base_fields [OF loop, of sample_env] loop conv show ?thesis
    by (simp add: same_base_fields_def)
qed

text \<open>
  C2 as stated fails on a batch of one empty frame: the table of directory mode has four
  columns, the table of buffer mode three, and the sample serialisation, which writes
  the number of columns, gives them different bytes.
\<close>

theorem modes_encode_differently:
  "make_table sample_env
     [[(''episode_index'', JInt 0), (''frame_index'', JInt 0),
       (''timestamp'', JFloat (Fin 0)), (''task_index'', JInt 0)]] =
     Inr [(''episode_index'', Arr Pa_int64 [JInt 0]), (''frame_index'', Arr Pa_int64 [JInt 0]),
          (''timestamp'', Arr Pa_float64 [JFloat (Fin 0)]),
          (''task_index'', Arr Pa_int64 [JInt 0])]
   \<and> convert_table sample_env
       [[(''episode_index'', JInt 0), (''frame_index'', JInt 0),
         (''timestamp'', JFloat (Fin 0))]] =
     Inr [(''episode_index'', Arr Pa_int64 [JInt 0]), (''frame_index'', Arr Pa_int64 [JInt 0]),
          (''timestamp'', Arr Pa_float64 [JFloat (Fin 0)])]
   \<and> write_table sample_env
       [(''episode_index'', Arr Pa_int64 [JInt 0]), (''frame_index'', Arr Pa_int64 [JInt 0]),
        (''timestamp'', Arr Pa_float64 [JFloat (Fin 0)]),
        (''task_index'', Arr Pa_int64 [JInt 0])]
     \<noteq> write_table sample_env
       [(''episode_index'', Arr Pa_int64 [JInt 0]), (''frame_index'', Arr Pa_int64 [JInt 0]),
        (''timestamp'', Arr Pa_float64 [JFloat (Fin 0)])]"
  by (simp add: make_table_def schema_fields_def vector_field_def to_columns_def
      cell_value_def convert_table_def convert_columns_def required_column_def
      optional_column_def pa_table_def pa_array_def pa_value_def pa_scalar_def ebind_def
      sample_env_def)

end
